theory Spec2Isabelle
  imports Complex_Main "HOL-Library.Log_Nat"
begin

unbundle bit_operations_syntax

section \<open>Model of \<^verbatim>\<open>graphics_algorithms.py\<close>\<close>

text \<open>
  Python's unbounded integers are \<^typ>\<open>int\<close>. The rasterisers compute on ints; where they
  use a float (the decision parameters of the ellipse, the scanline intersections) it is
  an exact \<^typ>\<open>real\<close>. The clipping functions are modelled on Python's numbers, ints and
  doubles with their rounding; polygon clipping has a second model over exact reals, for
  the properties that are about exact arithmetic. Lists are HOL lists; a \<^verbatim>\<open>for\<close> loop
  over \<^verbatim>\<open>range(n)\<close> is a recursion over the remaining number of iterations or a
  \<^const>\<open>map\<close> over the index list; a \<^verbatim>\<open>while\<close> loop is a recursive function on the
  loop state.
\<close>

subsection \<open>Bresenham's line\<close>

text \<open>
  The two \<^verbatim>\<open>for _ in range(...)\<close> loops of \<^verbatim>\<open>bresenham_line\<close>. The first
  argument counts the iterations that are left; \<open>x\<close>, \<open>y\<close>, \<open>p\<close> are the loop state.
\<close>

fun bresenham_loop_x ::
  "nat \<Rightarrow> int \<Rightarrow> int \<Rightarrow> int \<Rightarrow> int \<Rightarrow> int \<Rightarrow> int \<Rightarrow> int \<Rightarrow> (int \<times> int) list" where
  "bresenham_loop_x 0 dx dy sx sy x y p = []"
| "bresenham_loop_x (Suc n) dx dy sx sy x y p =
     (x, y) #
     (let (y', p') = (if p \<ge> 0 then (y + sy, p - 2 * dx) else (y, p));
          p'' = p' + 2 * dy;
          x' = x + sx
      in bresenham_loop_x n dx dy sx sy x' y' p'')"

fun bresenham_loop_y ::
  "nat \<Rightarrow> int \<Rightarrow> int \<Rightarrow> int \<Rightarrow> int \<Rightarrow> int \<Rightarrow> int \<Rightarrow> int \<Rightarrow> (int \<times> int) list" where
  "bresenham_loop_y 0 dx dy sx sy x y p = []"
| "bresenham_loop_y (Suc n) dx dy sx sy x y p =
     (x, y) #
     (let (x', p') = (if p \<ge> 0 then (x + sx, p - 2 * dy) else (x, p));
          p'' = p' + 2 * dx;
          y' = y + sy
      in bresenham_loop_y n dx dy sx sy x' y' p'')"

definition bresenham_line :: "int \<Rightarrow> int \<Rightarrow> int \<Rightarrow> int \<Rightarrow> (int \<times> int) list" where
  "bresenham_line x1 y1 x2 y2 =
     (let dx = \<bar>x2 - x1\<bar>;
          dy = \<bar>y2 - y1\<bar>;
          sx = (if x2 > x1 then 1 else - 1);
          sy = (if y2 > y1 then 1 else - 1)
      in if dx > dy
         then bresenham_loop_x (nat (dx + 1)) dx dy sx sy x1 y1 (2 * dy - dx)
         else bresenham_loop_y (nat (dy + 1)) dx dy sx sy x1 y1 (2 * dx - dy))"

subsection \<open>Midpoint circle\<close>

definition plot_circle_points :: "int \<Rightarrow> int \<Rightarrow> int \<Rightarrow> int \<Rightarrow> (int \<times> int) list" where
  "plot_circle_points xc yc x y =
     [(xc + x, yc + y), (xc - x, yc + y),
      (xc + x, yc - y), (xc - x, yc - y),
      (xc + y, yc + x), (xc - y, yc + x),
      (xc + y, yc - x), (xc - y, yc - x)]"

function midpoint_circle_loop ::
  "int \<Rightarrow> int \<Rightarrow> int \<Rightarrow> int \<Rightarrow> int \<Rightarrow> (int \<times> int) list \<Rightarrow> (int \<times> int) list" where
  "midpoint_circle_loop xc yc x y p points =
     (if x < y then
        (let x' = x + 1;
             y' = (if p < 0 then y else y - 1);
             p' = (if p < 0 then p + (2 * x' + 1) else p + (2 * (x' - y') + 1))
         in midpoint_circle_loop xc yc x' y' p' (points @ plot_circle_points xc yc x' y'))
      else points)"
  by pat_completeness auto
termination
  by (relation "measure (\<lambda>(xc, yc, x, y, p, points). nat (y - x))") auto

definition midpoint_circle :: "int \<Rightarrow> int \<Rightarrow> int \<Rightarrow> (int \<times> int) list" where
  "midpoint_circle xc yc r =
     midpoint_circle_loop xc yc 0 r (1 - r) (plot_circle_points xc yc 0 r)"

text \<open>\<^verbatim>\<open>range(min(x1, x2), max(x1, x2) + 1)\<close> is the inclusive interval \<open>[min x1 x2..max x1 x2]\<close>.\<close>

definition draw_horizontal_line :: "int \<Rightarrow> int \<Rightarrow> int \<Rightarrow> (int \<times> int) list" where
  "draw_horizontal_line x1 x2 y = map (\<lambda>x. (x, y)) [min x1 x2..max x1 x2]"

function filled_circle_loop ::
  "int \<Rightarrow> int \<Rightarrow> int \<Rightarrow> int \<Rightarrow> int \<Rightarrow> (int \<times> int) list \<Rightarrow> (int \<times> int) list" where
  "filled_circle_loop xc yc x y p points =
     (if x \<le> y then
        (let points' = points
               @ draw_horizontal_line (xc - x) (xc + x) (yc + y)
               @ draw_horizontal_line (xc - x) (xc + x) (yc - y)
               @ draw_horizontal_line (xc - y) (xc + y) (yc + x)
               @ draw_horizontal_line (xc - y) (xc + y) (yc - x);
             x' = x + 1;
             y' = (if p < 0 then y else y - 1);
             p' = (if p < 0 then p + (2 * x' + 1) else p + (2 * (x' - y') + 1))
         in filled_circle_loop xc yc x' y' p' points')
      else points)"
  by pat_completeness auto
termination
  by (relation "measure (\<lambda>(xc, yc, x, y, p, points). nat (y - x + 1))") auto

text \<open>
  \<^verbatim>\<open>list(set(points))\<close> keeps one copy of every point, in an order Python does not
  specify; \<^const>\<open>remdups\<close> fixes one such order.
\<close>

definition filled_circle :: "int \<Rightarrow> int \<Rightarrow> int \<Rightarrow> (int \<times> int) list" where
  "filled_circle xc yc r = remdups (filled_circle_loop xc yc 0 r (1 - r) [])"

subsection \<open>Midpoint ellipse\<close>

definition plot_ellipse_points :: "int \<Rightarrow> int \<Rightarrow> int \<Rightarrow> int \<Rightarrow> (int \<times> int) list" where
  "plot_ellipse_points xc yc x y =
     [(xc + x, yc + y), (xc - x, yc + y),
      (xc + x, yc - y), (xc - x, yc - y)]"

text \<open>
  Region 1 of \<^verbatim>\<open>midpoint_ellipse\<close>: \<^verbatim>\<open>while px < py\<close>. Nothing in the loop itself
  makes \<open>px\<close> grow (it grows by \<open>2 * ry2\<close>), so the loop is a partial function: \<open>None\<close> is
  a run that never leaves the loop. The result is the state the second region starts from.
\<close>

partial_function (option) midpoint_ellipse_region1 ::
  "int \<Rightarrow> int \<Rightarrow> int \<Rightarrow> int \<Rightarrow> int \<Rightarrow> int \<Rightarrow> int \<Rightarrow> int \<Rightarrow> real \<Rightarrow> (int \<times> int) list
   \<Rightarrow> (int \<times> int \<times> int \<times> int \<times> (int \<times> int) list) option" where
  "midpoint_ellipse_region1 xc yc rx2 ry2 x y px py p1 points =
     (if px < py then
        (let two_rx2 = 2 * rx2;
             two_ry2 = 2 * ry2;
             x' = x + 1;
             px' = px + two_ry2;
             y' = (if p1 < 0 then y else y - 1);
             py' = (if p1 < 0 then py else py - two_rx2);
             p1' = (if p1 < 0 then p1 + (real_of_int ry2 + real_of_int px')
                    else p1 + (real_of_int ry2 + real_of_int px' - real_of_int py'))
         in midpoint_ellipse_region1 xc yc rx2 ry2 x' y' px' py' p1'
              (points @ plot_ellipse_points xc yc x' y'))
      else Some (x, y, px, py, points))"

declare midpoint_ellipse_region1.simps [code]

function midpoint_ellipse_region2 ::
  "int \<Rightarrow> int \<Rightarrow> int \<Rightarrow> int \<Rightarrow> int \<Rightarrow> int \<Rightarrow> int \<Rightarrow> int \<Rightarrow> real \<Rightarrow> (int \<times> int) list
   \<Rightarrow> (int \<times> int) list" where
  "midpoint_ellipse_region2 xc yc rx2 ry2 x y px py p2 points =
     (if y > 0 then
        (let two_rx2 = 2 * rx2;
             two_ry2 = 2 * ry2;
             y' = y - 1;
             py' = py - two_rx2;
             x' = (if p2 > 0 then x else x + 1);
             px' = (if p2 > 0 then px else px + two_ry2);
             p2' = (if p2 > 0 then p2 + (real_of_int rx2 - real_of_int py')
                    else p2 + (real_of_int rx2 - real_of_int py' + real_of_int px'))
         in midpoint_ellipse_region2 xc yc rx2 ry2 x' y' px' py' p2'
              (points @ plot_ellipse_points xc yc x' y'))
      else points)"
  by pat_completeness auto
termination
  by (relation "measure (\<lambda>(xc, yc, rx2, ry2, x, y, px, py, p2, points). nat y)") auto

definition midpoint_ellipse :: "int \<Rightarrow> int \<Rightarrow> int \<Rightarrow> int \<Rightarrow> (int \<times> int) list option" where
  "midpoint_ellipse xc yc rx ry =
     (let rx2 = rx * rx;
          ry2 = ry * ry;
          two_rx2 = 2 * rx2;
          x = 0;
          y = ry;
          px = 0;
          py = two_rx2 * y;
          p1 = real_of_int ry2 - real_of_int (rx2 * ry) + 0.25 * real_of_int rx2
      in case midpoint_ellipse_region1 xc yc rx2 ry2 x y px py p1
                (plot_ellipse_points xc yc x y) of
           None \<Rightarrow> None
         | Some (x, y, px, py, points) \<Rightarrow>
             (let p2 = real_of_int ry2 * (real_of_int x + 0.5) ^ 2
                       + real_of_int rx2 * (real_of_int (y - 1)) ^ 2
                       - real_of_int (rx2 * ry2)
              in Some (midpoint_ellipse_region2 xc yc rx2 ry2 x y px py p2 points)))"

partial_function (option) filled_ellipse_region1 ::
  "int \<Rightarrow> int \<Rightarrow> int \<Rightarrow> int \<Rightarrow> int \<Rightarrow> int \<Rightarrow> int \<Rightarrow> int \<Rightarrow> real \<Rightarrow> (int \<times> int) list
   \<Rightarrow> (int \<times> int \<times> int \<times> int \<times> (int \<times> int) list) option" where
  "filled_ellipse_region1 xc yc rx2 ry2 x y px py p1 points =
     (if px < py then
        (let two_rx2 = 2 * rx2;
             two_ry2 = 2 * ry2;
             points' = points
               @ draw_horizontal_line (xc - x) (xc + x) (yc + y)
               @ draw_horizontal_line (xc - x) (xc + x) (yc - y);
             x' = x + 1;
             px' = px + two_ry2;
             y' = (if p1 < 0 then y else y - 1);
             py' = (if p1 < 0 then py else py - two_rx2);
             p1' = (if p1 < 0 then p1 + (real_of_int ry2 + real_of_int px')
                    else p1 + (real_of_int ry2 + real_of_int px' - real_of_int py'))
         in filled_ellipse_region1 xc yc rx2 ry2 x' y' px' py' p1' points')
      else Some (x, y, px, py, points))"

declare filled_ellipse_region1.simps [code]

function filled_ellipse_region2 ::
  "int \<Rightarrow> int \<Rightarrow> int \<Rightarrow> int \<Rightarrow> int \<Rightarrow> int \<Rightarrow> int \<Rightarrow> int \<Rightarrow> real \<Rightarrow> (int \<times> int) list
   \<Rightarrow> (int \<times> int) list" where
  "filled_ellipse_region2 xc yc rx2 ry2 x y px py p2 points =
     (if y \<ge> 0 then
        (let two_rx2 = 2 * rx2;
             two_ry2 = 2 * ry2;
             points' = points
               @ draw_horizontal_line (xc - x) (xc + x) (yc + y)
               @ draw_horizontal_line (xc - x) (xc + x) (yc - y);
             y' = y - 1;
             py' = py - two_rx2;
             x' = (if p2 > 0 then x else x + 1);
             px' = (if p2 > 0 then px else px + two_ry2);
             p2' = (if p2 > 0 then p2 + (real_of_int rx2 - real_of_int py')
                    else p2 + (real_of_int rx2 - real_of_int py' + real_of_int px'))
         in filled_ellipse_region2 xc yc rx2 ry2 x' y' px' py' p2' points')
      else points)"
  by pat_completeness auto
termination
  by (relation "measure (\<lambda>(xc, yc, rx2, ry2, x, y, px, py, p2, points). nat (y + 1))") auto

definition filled_ellipse :: "int \<Rightarrow> int \<Rightarrow> int \<Rightarrow> int \<Rightarrow> (int \<times> int) list option" where
  "filled_ellipse xc yc rx ry =
     (let rx2 = rx * rx;
          ry2 = ry * ry;
          two_rx2 = 2 * rx2;
          x = 0;
          y = ry;
          px = 0;
          py = two_rx2 * y;
          p1 = real_of_int ry2 - real_of_int (rx2 * ry) + 0.25 * real_of_int rx2
      in case filled_ellipse_region1 xc yc rx2 ry2 x y px py p1 [] of
           None \<Rightarrow> None
         | Some (x, y, px, py, points) \<Rightarrow>
             (let p2 = real_of_int ry2 * (real_of_int x + 0.5) ^ 2
                       + real_of_int rx2 * (real_of_int (y - 1)) ^ 2
                       - real_of_int (rx2 * ry2)
              in Some (remdups (filled_ellipse_region2 xc yc rx2 ry2 x y px py p2 points))))"

subsection \<open>Homogeneous 2D transformation matrices\<close>

text \<open>
  A 3\<times>3 \<^verbatim>\<open>np.ndarray\<close> is the triple of its rows; \<^verbatim>\<open>@\<close> is the matrix product.
\<close>

type_synonym row3 = "real \<times> real \<times> real"
type_synonym matrix3 = "row3 \<times> row3 \<times> row3"

definition matmul :: "matrix3 \<Rightarrow> matrix3 \<Rightarrow> matrix3" where
  "matmul A B =
     (case A of ((a11, a12, a13), (a21, a22, a23), (a31, a32, a33)) \<Rightarrow>
      case B of ((b11, b12, b13), (b21, b22, b23), (b31, b32, b33)) \<Rightarrow>
        ((a11 * b11 + a12 * b21 + a13 * b31,
          a11 * b12 + a12 * b22 + a13 * b32,
          a11 * b13 + a12 * b23 + a13 * b33),
         (a21 * b11 + a22 * b21 + a23 * b31,
          a21 * b12 + a22 * b22 + a23 * b32,
          a21 * b13 + a22 * b23 + a23 * b33),
         (a31 * b11 + a32 * b21 + a33 * b31,
          a31 * b12 + a32 * b22 + a33 * b32,
          a31 * b13 + a32 * b23 + a33 * b33)))"

definition last_row :: "matrix3 \<Rightarrow> row3" where
  "last_row M = snd (snd M)"

definition translation_matrix :: "real \<Rightarrow> real \<Rightarrow> matrix3" where
  "translation_matrix tx ty =
     ((1, 0, tx),
      (0, 1, ty),
      (0, 0, 1))"

definition scaling_matrix :: "real \<Rightarrow> real \<Rightarrow> matrix3" where
  "scaling_matrix sx sy =
     ((sx, 0, 0),
      (0, sy, 0),
      (0, 0, 1))"

text \<open>\<^verbatim>\<open>np.radians\<close> multiplies by \<open>\<pi> / 180\<close>.\<close>

definition radians :: "real \<Rightarrow> real" where
  "radians angle_degrees = angle_degrees * pi / 180"

definition rotation_matrix :: "real \<Rightarrow> matrix3" where
  "rotation_matrix angle_degrees =
     (let theta = radians angle_degrees;
          cos_t = cos theta;
          sin_t = sin theta
      in ((cos_t, - sin_t, 0),
          (sin_t, cos_t, 0),
          (0, 0, 1)))"

definition rotation_about_point :: "real \<Rightarrow> real \<Rightarrow> real \<Rightarrow> matrix3" where
  "rotation_about_point angle_degrees px py =
     (let T1 = translation_matrix (- px) (- py);
          R = rotation_matrix angle_degrees;
          T2 = translation_matrix px py
      in matmul (matmul T2 R) T1)"

definition scaling_about_point :: "real \<Rightarrow> real \<Rightarrow> real \<Rightarrow> real \<Rightarrow> matrix3" where
  "scaling_about_point sx sy px py =
     (let T1 = translation_matrix (- px) (- py);
          S = scaling_matrix sx sy;
          T2 = translation_matrix px py
      in matmul (matmul T2 S) T1)"

definition shear_matrix :: "real \<Rightarrow> real \<Rightarrow> matrix3" where
  "shear_matrix shx shy =
     ((1, shx, 0),
      (shy, 1, 0),
      (0, 0, 1))"

definition reflect_x :: matrix3 where
  "reflect_x = scaling_matrix 1 (- 1)"

definition reflect_y :: matrix3 where
  "reflect_y = scaling_matrix (- 1) 1"

definition reflect_origin :: matrix3 where
  "reflect_origin = scaling_matrix (- 1) (- 1)"

subsection \<open>Python's numbers\<close>

text \<open>
  The clipping functions compute with whatever numbers they are given: ints, floats, or
  both (the renderer builds its clip windows from ints). A number is an int or a double;
  a double is a real that 53 bits represent, an infinity or NaN.
\<close>

datatype pyfloat = Finite real | PosInf | NegInf | NaN

datatype pynum = PyInt int | PyFloat pyfloat

datatype py_error = ZeroDivisionError | OverflowError | UnboundLocalError

text \<open>
  Rounding to the nearest double, ties to even. \<open>binary_exponent x\<close> is the \<open>e\<close> with
  \<open>2 powi e \<le> \<bar>x\<bar> < 2 powi (e + 1)\<close>; a double has 53 significant bits, so its last bit
  is worth \<open>2 powi (e - 52)\<close>, and \<open>2 powi (- 1074)\<close> below the normal range. A result of
  magnitude \<open>2 ^ 1024\<close> or more is an infinity.
\<close>

definition binary_exponent :: "real \<Rightarrow> int" where
  "binary_exponent x =
     (if 1 \<le> \<bar>x\<bar> then bitlen \<lfloor>\<bar>x\<bar>\<rfloor> - 1 else - bitlen (\<lceil>1 / \<bar>x\<bar>\<rceil> - 1))"

definition round_half_even :: "real \<Rightarrow> int" where
  "round_half_even y =
     (let f = \<lfloor>y\<rfloor>; d = y - of_int f
      in if d < 1 / 2 then f
         else if d > 1 / 2 then f + 1
         else if even f then f else f + 1)"

definition round_double :: "real \<Rightarrow> pyfloat" where
  "round_double x =
     (if x = 0 then Finite 0
      else
        (let e = max (binary_exponent x) (- 1022);
             q = 2 powi (e - 52);
             r = of_int (round_half_even (x / q)) * q
         in if r \<ge> 2 powi 1024 then PosInf
            else if r \<le> - (2 powi 1024) then NegInf
            else Finite r))"

text \<open>
  The operations of IEEE 754 on doubles. The two zeros are one value here: they compare
  equal, and no operation of this program tells them apart (dividing by either raises).
  \<open>fl_div\<close> is only called with a divisor that is not zero.
\<close>

fun fl_neg :: "pyfloat \<Rightarrow> pyfloat" where
  "fl_neg (Finite a) = Finite (- a)"
| "fl_neg PosInf = NegInf"
| "fl_neg NegInf = PosInf"
| "fl_neg NaN = NaN"

fun fl_abs :: "pyfloat \<Rightarrow> pyfloat" where
  "fl_abs (Finite a) = Finite \<bar>a\<bar>"
| "fl_abs PosInf = PosInf"
| "fl_abs NegInf = PosInf"
| "fl_abs NaN = NaN"

fun fl_add :: "pyfloat \<Rightarrow> pyfloat \<Rightarrow> pyfloat" where
  "fl_add (Finite a) (Finite b) = round_double (a + b)"
| "fl_add NaN _ = NaN"
| "fl_add _ NaN = NaN"
| "fl_add PosInf NegInf = NaN"
| "fl_add NegInf PosInf = NaN"
| "fl_add PosInf _ = PosInf"
| "fl_add NegInf _ = NegInf"
| "fl_add _ PosInf = PosInf"
| "fl_add _ NegInf = NegInf"

definition fl_sub :: "pyfloat \<Rightarrow> pyfloat \<Rightarrow> pyfloat" where
  "fl_sub a b = fl_add a (fl_neg b)"

definition fl_signed_inf :: "bool \<Rightarrow> pyfloat" where
  "fl_signed_inf negative = (if negative then NegInf else PosInf)"

fun fl_mul :: "pyfloat \<Rightarrow> pyfloat \<Rightarrow> pyfloat" where
  "fl_mul (Finite a) (Finite b) = round_double (a * b)"
| "fl_mul NaN _ = NaN"
| "fl_mul _ NaN = NaN"
| "fl_mul (Finite a) PosInf = (if a = 0 then NaN else fl_signed_inf (a < 0))"
| "fl_mul (Finite a) NegInf = (if a = 0 then NaN else fl_signed_inf (a > 0))"
| "fl_mul PosInf (Finite b) = (if b = 0 then NaN else fl_signed_inf (b < 0))"
| "fl_mul NegInf (Finite b) = (if b = 0 then NaN else fl_signed_inf (b > 0))"
| "fl_mul PosInf PosInf = PosInf"
| "fl_mul PosInf NegInf = NegInf"
| "fl_mul NegInf PosInf = NegInf"
| "fl_mul NegInf NegInf = PosInf"

fun fl_div :: "pyfloat \<Rightarrow> pyfloat \<Rightarrow> pyfloat" where
  "fl_div (Finite a) (Finite b) = round_double (a / b)"
| "fl_div NaN _ = NaN"
| "fl_div _ NaN = NaN"
| "fl_div (Finite a) PosInf = Finite 0"
| "fl_div (Finite a) NegInf = Finite 0"
| "fl_div PosInf (Finite b) = fl_signed_inf (b < 0)"
| "fl_div NegInf (Finite b) = fl_signed_inf (b > 0)"
| "fl_div PosInf PosInf = NaN"
| "fl_div PosInf NegInf = NaN"
| "fl_div NegInf PosInf = NaN"
| "fl_div NegInf NegInf = NaN"

fun fl_less :: "pyfloat \<Rightarrow> pyfloat \<Rightarrow> bool" where
  "fl_less (Finite a) (Finite b) \<longleftrightarrow> a < b"
| "fl_less NaN _ \<longleftrightarrow> False"
| "fl_less _ NaN \<longleftrightarrow> False"
| "fl_less _ NegInf \<longleftrightarrow> False"
| "fl_less PosInf _ \<longleftrightarrow> False"
| "fl_less NegInf _ \<longleftrightarrow> True"
| "fl_less _ PosInf \<longleftrightarrow> True"

fun fl_less_eq :: "pyfloat \<Rightarrow> pyfloat \<Rightarrow> bool" where
  "fl_less_eq (Finite a) (Finite b) \<longleftrightarrow> a \<le> b"
| "fl_less_eq NaN _ \<longleftrightarrow> False"
| "fl_less_eq _ NaN \<longleftrightarrow> False"
| "fl_less_eq NegInf _ \<longleftrightarrow> True"
| "fl_less_eq _ PosInf \<longleftrightarrow> True"
| "fl_less_eq _ NegInf \<longleftrightarrow> False"
| "fl_less_eq PosInf _ \<longleftrightarrow> False"

text \<open>
  Python compares an int with a float by their mathematical values, without converting
  the int; a comparison with NaN is false.
\<close>

fun num_value :: "pynum \<Rightarrow> pyfloat" where
  "num_value (PyInt n) = Finite (of_int n)"
| "num_value (PyFloat f) = f"

definition py_lt :: "pynum \<Rightarrow> pynum \<Rightarrow> bool" where
  "py_lt a b = fl_less (num_value a) (num_value b)"

definition py_gt :: "pynum \<Rightarrow> pynum \<Rightarrow> bool" where
  "py_gt a b = fl_less (num_value b) (num_value a)"

definition py_ge :: "pynum \<Rightarrow> pynum \<Rightarrow> bool" where
  "py_ge a b = fl_less_eq (num_value b) (num_value a)"

text \<open>
  Arithmetic on two ints is exact. When an operand is a float, an int operand is converted
  first: rounded to the nearest double, or \<^verbatim>\<open>OverflowError\<close> when it is too large.
  \<^verbatim>\<open>a / b\<close> on two ints is their quotient rounded once; on floats it raises
  \<^verbatim>\<open>ZeroDivisionError\<close> when the divisor is zero.
\<close>

fun to_float :: "pynum \<Rightarrow> py_error + pyfloat" where
  "to_float (PyFloat f) = Inr f"
| "to_float (PyInt n) =
     (case round_double (of_int n) of Finite r \<Rightarrow> Inr (Finite r) | _ \<Rightarrow> Inl OverflowError)"

definition and_then :: "'e + 'a \<Rightarrow> ('a \<Rightarrow> 'e + 'b) \<Rightarrow> 'e + 'b" where
  "and_then r f = (case r of Inl e \<Rightarrow> Inl e | Inr v \<Rightarrow> f v)"

definition float_op :: "(pyfloat \<Rightarrow> pyfloat \<Rightarrow> pyfloat) \<Rightarrow> pynum \<Rightarrow> pynum \<Rightarrow> py_error + pynum" where
  "float_op f a b =
     and_then (to_float a) (\<lambda>x. and_then (to_float b) (\<lambda>y. Inr (PyFloat (f x y))))"

fun py_add :: "pynum \<Rightarrow> pynum \<Rightarrow> py_error + pynum" where
  "py_add (PyInt m) (PyInt n) = Inr (PyInt (m + n))"
| "py_add a b = float_op fl_add a b"

fun py_sub :: "pynum \<Rightarrow> pynum \<Rightarrow> py_error + pynum" where
  "py_sub (PyInt m) (PyInt n) = Inr (PyInt (m - n))"
| "py_sub a b = float_op fl_sub a b"

fun py_mul :: "pynum \<Rightarrow> pynum \<Rightarrow> py_error + pynum" where
  "py_mul (PyInt m) (PyInt n) = Inr (PyInt (m * n))"
| "py_mul a b = float_op fl_mul a b"

fun py_truediv :: "pynum \<Rightarrow> pynum \<Rightarrow> py_error + pynum" where
  "py_truediv (PyInt m) (PyInt n) =
     (if n = 0 then Inl ZeroDivisionError
      else case round_double (of_int m / of_int n) of
             Finite r \<Rightarrow> Inr (PyFloat (Finite r))
           | _ \<Rightarrow> Inl OverflowError)"
| "py_truediv a b =
     and_then (to_float a) (\<lambda>x. and_then (to_float b) (\<lambda>y.
       if y = Finite 0 then Inl ZeroDivisionError else Inr (PyFloat (fl_div x y))))"

fun py_abs :: "pynum \<Rightarrow> pynum" where
  "py_abs (PyInt n) = PyInt \<bar>n\<bar>"
| "py_abs (PyFloat f) = PyFloat (fl_abs f)"

text \<open>
  The same operations on the results of subexpressions: Python evaluates the left operand,
  then the right one, and the first error ends the evaluation.
\<close>

definition add_r :: "py_error + pynum \<Rightarrow> py_error + pynum \<Rightarrow> py_error + pynum" where
  "add_r a b = and_then a (\<lambda>x. and_then b (\<lambda>y. py_add x y))"

definition sub_r :: "py_error + pynum \<Rightarrow> py_error + pynum \<Rightarrow> py_error + pynum" where
  "sub_r a b = and_then a (\<lambda>x. and_then b (\<lambda>y. py_sub x y))"

definition mul_r :: "py_error + pynum \<Rightarrow> py_error + pynum \<Rightarrow> py_error + pynum" where
  "mul_r a b = and_then a (\<lambda>x. and_then b (\<lambda>y. py_mul x y))"

definition div_r :: "py_error + pynum \<Rightarrow> py_error + pynum \<Rightarrow> py_error + pynum" where
  "div_r a b = and_then a (\<lambda>x. and_then b (\<lambda>y. py_truediv x y))"

subsection \<open>Clip windows\<close>

text \<open>
  The classes \<^verbatim>\<open>CohenSutherland\<close> and \<^verbatim>\<open>SutherlandHodgman\<close> hold the same four
  fields, set once by \<^verbatim>\<open>__init__\<close>. The type of the coordinates is a parameter:
  Python's numbers, or reals where a property is about exact arithmetic.
\<close>

record 'a clip_window =
  x_min :: 'a
  y_min :: 'a
  x_max :: 'a
  y_max :: 'a

subsection \<open>Cohen-Sutherland line clipping\<close>

definition INSIDE :: int where "INSIDE = 0"
definition LEFT :: int where "LEFT = 1"
definition RIGHT :: int where "RIGHT = 2"
definition BOTTOM :: int where "BOTTOM = 4"
definition TOP :: int where "TOP = 8"

definition compute_code :: "pynum clip_window \<Rightarrow> pynum \<Rightarrow> pynum \<Rightarrow> int" where
  "compute_code w x y =
     (let code = INSIDE;
          code = (if py_lt x (x_min w) then code OR LEFT
                  else if py_gt x (x_max w) then code OR RIGHT
                  else code);
          code = (if py_lt y (y_min w) then code OR BOTTOM
                  else if py_gt y (y_max w) then code OR TOP
                  else code)
      in code)"

text \<open>
  The \<^verbatim>\<open>if\<close>/\<^verbatim>\<open>elif\<close> chain that finds the intersection point for the outcode
  \<open>c_out\<close>. When no branch is taken the source assigns neither \<open>x\<close> nor \<open>y\<close> and keeps
  what an earlier iteration left there, \<open>prev\<close>; on the first iteration the read that
  follows raises \<^verbatim>\<open>UnboundLocalError\<close>.
\<close>

definition find_intersection ::
  "pynum clip_window \<Rightarrow> int \<Rightarrow> pynum \<Rightarrow> pynum \<Rightarrow> pynum \<Rightarrow> pynum \<Rightarrow> (pynum \<times> pynum) option
   \<Rightarrow> py_error + (pynum \<times> pynum)" where
  "find_intersection w c_out x1 y1 x2 y2 prev =
     (if c_out AND TOP \<noteq> 0 then
        and_then
          (add_r (Inr x1) (div_r (mul_r (py_sub x2 x1) (py_sub (y_max w) y1)) (py_sub y2 y1)))
          (\<lambda>x. Inr (x, y_max w))
      else if c_out AND BOTTOM \<noteq> 0 then
        and_then
          (add_r (Inr x1) (div_r (mul_r (py_sub x2 x1) (py_sub (y_min w) y1)) (py_sub y2 y1)))
          (\<lambda>x. Inr (x, y_min w))
      else if c_out AND RIGHT \<noteq> 0 then
        and_then
          (add_r (Inr y1) (div_r (mul_r (py_sub y2 y1) (py_sub (x_max w) x1)) (py_sub x2 x1)))
          (\<lambda>y. Inr (x_max w, y))
      else if c_out AND LEFT \<noteq> 0 then
        and_then
          (add_r (Inr y1) (div_r (mul_r (py_sub y2 y1) (py_sub (x_min w) x1)) (py_sub x2 x1)))
          (\<lambda>y. Inr (x_min w, y))
      else (case prev of None \<Rightarrow> Inl UnboundLocalError | Some xy \<Rightarrow> Inr xy))"

text \<open>\<^verbatim>\<open>code_out = code1 if code1 != 0 else code2\<close>\<close>

definition code_out :: "int \<Rightarrow> int \<Rightarrow> int" where
  "code_out code1 code2 = (if code1 \<noteq> 0 then code1 else code2)"

text \<open>
  The \<^verbatim>\<open>while True\<close> loop of \<^verbatim>\<open>clip_line\<close>, with fuel: \<open>None\<close> is a run that
  has not returned after the given number of iterations.
\<close>

fun clip_line_loop ::
  "nat \<Rightarrow> pynum clip_window \<Rightarrow> pynum \<Rightarrow> pynum \<Rightarrow> pynum \<Rightarrow> pynum \<Rightarrow> int \<Rightarrow> int
   \<Rightarrow> (pynum \<times> pynum) option
   \<Rightarrow> (py_error + bool \<times> (pynum \<times> pynum \<times> pynum \<times> pynum)) option" where
  "clip_line_loop 0 w x1 y1 x2 y2 code1 code2 prev = None"
| "clip_line_loop (Suc n) w x1 y1 x2 y2 code1 code2 prev =
     (if code1 OR code2 = 0 then Some (Inr (True, (x1, y1, x2, y2)))
      else if code1 AND code2 \<noteq> 0
      then Some (Inr (False, (PyInt 0, PyInt 0, PyInt 0, PyInt 0)))
      else
        (case find_intersection w (code_out code1 code2) x1 y1 x2 y2 prev of
           Inl e \<Rightarrow> Some (Inl e)
         | Inr xy \<Rightarrow>
             if code_out code1 code2 = code1
             then clip_line_loop n w (fst xy) (snd xy) x2 y2
                    (compute_code w (fst xy) (snd xy)) code2 (Some xy)
             else clip_line_loop n w x1 y1 (fst xy) (snd xy)
                    code1 (compute_code w (fst xy) (snd xy)) (Some xy)))"

definition clip_line ::
  "nat \<Rightarrow> pynum clip_window \<Rightarrow> pynum \<Rightarrow> pynum \<Rightarrow> pynum \<Rightarrow> pynum
   \<Rightarrow> (py_error + bool \<times> (pynum \<times> pynum \<times> pynum \<times> pynum)) option" where
  "clip_line fuel w x1 y1 x2 y2 =
     clip_line_loop fuel w x1 y1 x2 y2 (compute_code w x1 y1) (compute_code w x2 y2) None"

subsection \<open>Sutherland-Hodgman polygon clipping, in exact arithmetic\<close>

text \<open>
  The functions of \<^verbatim>\<open>SutherlandHodgman\<close> with every operation exact, on real
  coordinates.
\<close>

type_synonym point = "real \<times> real"

definition inside :: "point \<Rightarrow> point \<Rightarrow> point \<Rightarrow> bool" where
  "inside edge_start edge_end p \<longleftrightarrow>
     (fst edge_end - fst edge_start) * (snd p - snd edge_start)
       - (snd edge_end - snd edge_start) * (fst p - fst edge_start) \<ge> 0"

text \<open>The threshold \<^verbatim>\<open>1e-10\<close> of the near-parallel test.\<close>

definition parallel_eps :: real where
  "parallel_eps = 1 / 10 ^ 10"

definition intersection :: "point \<Rightarrow> point \<Rightarrow> point \<Rightarrow> point \<Rightarrow> point" where
  "intersection edge_start edge_end p1 p2 =
     (case p1 of (x1, y1) \<Rightarrow>
      case p2 of (x2, y2) \<Rightarrow>
      case edge_start of (x3, y3) \<Rightarrow>
      case edge_end of (x4, y4) \<Rightarrow>
        (let denom = (x1 - x2) * (y3 - y4) - (y1 - y2) * (x3 - x4)
         in if \<bar>denom\<bar> < parallel_eps then p1
            else
              (let t = ((x1 - x3) * (y3 - y4) - (y1 - y3) * (x3 - x4)) / denom;
                   x = x1 + t * (x2 - x1);
                   y = y1 + t * (y2 - y1)
               in (x, y))))"

text \<open>
  One iteration of the loop of \<^verbatim>\<open>_clip_edge\<close> over \<open>i\<close>: the vertices it appends to
  \<open>output\<close>.
\<close>

definition clip_edge_at :: "point list \<Rightarrow> point \<Rightarrow> point \<Rightarrow> nat \<Rightarrow> point list" where
  "clip_edge_at polygon edge_start edge_end i =
     (let current = polygon ! i;
          next_vertex = polygon ! ((i + 1) mod length polygon);
          current_inside = inside edge_start edge_end current;
          next_inside = inside edge_start edge_end next_vertex
      in if current_inside then
           (if next_inside then [next_vertex]
            else [intersection edge_start edge_end current next_vertex])
         else
           (if next_inside then [intersection edge_start edge_end current next_vertex, next_vertex]
            else []))"

definition clip_edge :: "point list \<Rightarrow> point \<Rightarrow> point \<Rightarrow> point list" where
  "clip_edge polygon edge_start edge_end =
     (if length polygon = 0 then []
      else concat (map (clip_edge_at polygon edge_start edge_end) [0..<length polygon]))"

text \<open>
  The loop of \<^verbatim>\<open>clip_polygon\<close> over the four edges; \<^verbatim>\<open>break\<close> leaves it with the
  (empty) output.
\<close>

fun clip_edges :: "(point \<times> point) list \<Rightarrow> point list \<Rightarrow> point list" where
  "clip_edges [] output = output"
| "clip_edges ((edge_start, edge_end) # edges) output =
     (if length output = 0 then output
      else clip_edges edges (clip_edge output edge_start edge_end))"

definition clip_polygon :: "real clip_window \<Rightarrow> point list \<Rightarrow> point list" where
  "clip_polygon w polygon =
     (let edges =
            [((x_min w, y_min w), (x_max w, y_min w)),
             ((x_max w, y_min w), (x_max w, y_max w)),
             ((x_max w, y_max w), (x_min w, y_max w)),
             ((x_min w, y_max w), (x_min w, y_min w))]
      in clip_edges edges polygon)"

subsection \<open>Sutherland-Hodgman polygon clipping, on Python's numbers\<close>

text \<open>
  The same functions with the arithmetic of the program: every difference, product and
  quotient is an operation on Python's numbers, and may round.
\<close>

type_synonym py_point = "pynum \<times> pynum"

definition inside_py :: "py_point \<Rightarrow> py_point \<Rightarrow> py_point \<Rightarrow> py_error + bool" where
  "inside_py edge_start edge_end p =
     and_then
       (sub_r
          (mul_r (py_sub (fst edge_end) (fst edge_start)) (py_sub (snd p) (snd edge_start)))
          (mul_r (py_sub (snd edge_end) (snd edge_start)) (py_sub (fst p) (fst edge_start))))
       (\<lambda>v. Inr (py_ge v (PyInt 0)))"

text \<open>The literal \<^verbatim>\<open>1e-10\<close>: the double nearest to \<open>1 / 10 ^ 10\<close>.\<close>

definition parallel_eps_py :: pynum where
  "parallel_eps_py = PyFloat (round_double (1 / 10 ^ 10))"

definition intersection_py ::
  "py_point \<Rightarrow> py_point \<Rightarrow> py_point \<Rightarrow> py_point \<Rightarrow> py_error + py_point" where
  "intersection_py edge_start edge_end p1 p2 =
     (case p1 of (x1, y1) \<Rightarrow>
      case p2 of (x2, y2) \<Rightarrow>
      case edge_start of (x3, y3) \<Rightarrow>
      case edge_end of (x4, y4) \<Rightarrow>
        and_then
          (sub_r (mul_r (py_sub x1 x2) (py_sub y3 y4)) (mul_r (py_sub y1 y2) (py_sub x3 x4)))
          (\<lambda>denom.
             if py_lt (py_abs denom) parallel_eps_py then Inr p1
             else
               and_then
                 (div_r
                    (sub_r (mul_r (py_sub x1 x3) (py_sub y3 y4))
                           (mul_r (py_sub y1 y3) (py_sub x3 x4)))
                    (Inr denom))
                 (\<lambda>t.
                    and_then (add_r (Inr x1) (mul_r (Inr t) (py_sub x2 x1))) (\<lambda>x.
                    and_then (add_r (Inr y1) (mul_r (Inr t) (py_sub y2 y1))) (\<lambda>y.
                      Inr (x, y))))))"

definition clip_edge_at_py ::
  "py_point list \<Rightarrow> py_point \<Rightarrow> py_point \<Rightarrow> nat \<Rightarrow> py_error + py_point list" where
  "clip_edge_at_py polygon edge_start edge_end i =
     (let current = polygon ! i;
          next_vertex = polygon ! ((i + 1) mod length polygon)
      in and_then (inside_py edge_start edge_end current) (\<lambda>current_inside.
         and_then (inside_py edge_start edge_end next_vertex) (\<lambda>next_inside.
           if current_inside then
             (if next_inside then Inr [next_vertex]
              else and_then (intersection_py edge_start edge_end current next_vertex)
                     (\<lambda>q. Inr [q]))
           else
             (if next_inside
              then and_then (intersection_py edge_start edge_end current next_vertex)
                     (\<lambda>q. Inr [q, next_vertex])
              else Inr []))))"

text \<open>
  The loop of \<^verbatim>\<open>_clip_edge\<close> over the indices: what the iterations append, in order,
  unless one of them raises.
\<close>

fun clip_edge_loop_py :: "(nat \<Rightarrow> py_error + 'a list) \<Rightarrow> nat list \<Rightarrow> py_error + 'a list" where
  "clip_edge_loop_py f [] = Inr []"
| "clip_edge_loop_py f (i # is) =
     and_then (f i) (\<lambda>xs. and_then (clip_edge_loop_py f is) (\<lambda>ys. Inr (xs @ ys)))"

definition clip_edge_py ::
  "py_point list \<Rightarrow> py_point \<Rightarrow> py_point \<Rightarrow> py_error + py_point list" where
  "clip_edge_py polygon edge_start edge_end =
     (if length polygon = 0 then Inr []
      else clip_edge_loop_py (clip_edge_at_py polygon edge_start edge_end) [0..<length polygon])"

fun clip_edges_py ::
  "(py_point \<times> py_point) list \<Rightarrow> py_point list \<Rightarrow> py_error + py_point list" where
  "clip_edges_py [] output = Inr output"
| "clip_edges_py ((edge_start, edge_end) # edges) output =
     (if length output = 0 then Inr output
      else and_then (clip_edge_py output edge_start edge_end) (clip_edges_py edges))"

definition clip_polygon_py :: "pynum clip_window \<Rightarrow> py_point list \<Rightarrow> py_error + py_point list" where
  "clip_polygon_py w polygon =
     (let edges =
            [((x_min w, y_min w), (x_max w, y_min w)),
             ((x_max w, y_min w), (x_max w, y_max w)),
             ((x_max w, y_max w), (x_min w, y_max w)),
             ((x_min w, y_max w), (x_min w, y_min w))]
      in clip_edges_py edges polygon)"

subsection \<open>Scanline polygon fill\<close>

text \<open>Python's \<^verbatim>\<open>int\<close> of a float truncates towards zero.\<close>

definition py_int :: "real \<Rightarrow> int" where
  "py_int v = (if v \<ge> 0 then \<lfloor>v\<rfloor> else \<lceil>v\<rceil>)"

text \<open>The inner loop over the edges: the intersections it appends on scanline \<open>y\<close>.\<close>

definition scanline_at :: "point list \<Rightarrow> int \<Rightarrow> nat \<Rightarrow> real list" where
  "scanline_at vertices y i =
     (case vertices ! i of (x1, y1) \<Rightarrow>
      case vertices ! ((i + 1) mod length vertices) of (x2, y2) \<Rightarrow>
        if y1 = y2 then []
        else if min y1 y2 \<le> real_of_int y \<and> real_of_int y < max y1 y2
        then [x1 + (real_of_int y - y1) * (x2 - x1) / (y2 - y1)]
        else [])"

text \<open>
  The loop \<^verbatim>\<open>for i in range(0, len(intersections) - 1, 2)\<close>: the even indices below
  \<open>length intersections - 1\<close>.
\<close>

definition fill_spans :: "real list \<Rightarrow> int \<Rightarrow> (int \<times> int) list" where
  "fill_spans intersections y =
     concat (map (\<lambda>i. let x_start = py_int (intersections ! i);
                           x_end = py_int (intersections ! (i + 1))
                       in map (\<lambda>x. (x, y)) [x_start..x_end])
                 (filter even [0..<length intersections - 1]))"

definition scanline :: "point list \<Rightarrow> int \<Rightarrow> (int \<times> int) list" where
  "scanline vertices y =
     (let intersections = concat (map (scanline_at vertices y) [0..<length vertices]);
          intersections = sort intersections
      in fill_spans intersections y)"

definition filled_polygon :: "point list \<Rightarrow> (int \<times> int) list" where
  "filled_polygon vertices =
     (if length vertices < 3 then []
      else
        (let min_y = py_int (Min (set (map snd vertices)));
             max_y = py_int (Max (set (map snd vertices)))
         in concat (map (scanline vertices) [min_y..max_y])))"

section \<open>Properties\<close>

subsection \<open>Bresenham: length and endpoints\<close>

text \<open>
  The invariant of the decision parameter after \<open>a\<close> steps along the major axis and \<open>b\<close>
  steps along the minor axis (\<open>dx\<close> is the major and \<open>dy\<close> the minor extent).
\<close>

definition bres_inv :: "int \<Rightarrow> int \<Rightarrow> int \<Rightarrow> int \<Rightarrow> int \<Rightarrow> bool" where
  "bres_inv dx dy a b p \<longleftrightarrow>
     p = 2 * dy - dx + 2 * a * dy - 2 * dx * b \<and> 2 * dy - 2 * dx \<le> p \<and> p < 2 * dy"

lemma loop_y_swap:
  "bresenham_loop_y n dx dy sx sy x y p =
   map prod.swap (bresenham_loop_x n dy dx sy sx y x p)"
  by (induction n arbitrary: x y p) (auto simp: Let_def)

lemma loop_x_length: "length (bresenham_loop_x n dx dy sx sy x y p) = n"
  by (induction n arbitrary: x y p) (auto simp: Let_def)

lemma loop_x_offsets:
  "bresenham_loop_x n dx dy sx sy x y p =
   map (\<lambda>(a, b). (x + sx * a, y + sy * b)) (bresenham_loop_x n dx dy 1 1 0 0 p)"
proof (induction n arbitrary: sx sy x y p)
  case 0
  show ?case by simp
next
  case (Suc n)
  have shift: "bresenham_loop_x n dx dy 1 1 a b q =
      map (\<lambda>(c, d). (a + c, b + d)) (bresenham_loop_x n dx dy 1 1 0 0 q)" for a b q
    using Suc.IH [of 1 1 a b q] by simp
  have step: "bresenham_loop_x n dx dy sx sy (x + sx) (y + sy * e) q =
      map (\<lambda>(a, b). (x + sx * a, y + sy * b)) (bresenham_loop_x n dx dy 1 1 1 e q)" for e q
    by (subst Suc.IH, subst shift [of 1 e])
       (simp add: comp_def case_prod_unfold algebra_simps)
  show ?case
    using step [of 1] step [of 0] by (simp add: Let_def)
qed

lemma loop_x_last:
  assumes "0 \<le> dy" "dy \<le> dx" "bres_inv dx dy a b p"
  shows "\<exists>b' p'. last (bresenham_loop_x (Suc n) dx dy 1 1 a b p) = (a + int n, b') \<and>
           bres_inv dx dy (a + int n) b' p'"
  using assms
proof (induction n arbitrary: a b p)
  case 0
  then show ?case by auto
next
  case (Suc n)
  show ?case
  proof (cases "p \<ge> 0")
    case True
    have "bres_inv dx dy (a + 1) (b + 1) (p - 2 * dx + 2 * dy)"
      using Suc.prems True by (auto simp: bres_inv_def algebra_simps)
    from Suc.IH [OF Suc.prems(1,2) this] True show ?thesis
      by (simp add: Let_def add.assoc)
  next
    case False
    have "bres_inv dx dy (a + 1) b (p + 2 * dy)"
      using Suc.prems False by (auto simp: bres_inv_def algebra_simps)
    from Suc.IH [OF Suc.prems(1,2) this] False show ?thesis
      by (simp add: Let_def add.assoc)
  qed
qed

lemma bres_inv_final:
  assumes "0 < dx" "bres_inv dx dy dx b p"
  shows "b = dy"
proof -
  have 1: "- dx \<le> 2 * dx * (dy - b)" and 2: "2 * dx * (dy - b) < dx"
    using assms by (auto simp: bres_inv_def algebra_simps)
  have "\<not> dy - b \<ge> 1"
  proof
    assume "dy - b \<ge> 1"
    then have "2 * dx * 1 \<le> 2 * dx * (dy - b)" using assms(1) by (intro mult_left_mono) auto
    with 2 assms(1) show False by simp
  qed
  moreover have "\<not> dy - b \<le> - 1"
  proof
    assume "dy - b \<le> - 1"
    then have "2 * dx * (dy - b) \<le> 2 * dx * (- 1)" using assms(1) by (intro mult_left_mono) auto
    with 1 assms(1) show False by simp
  qed
  ultimately show ?thesis by linarith
qed

lemma loop_x_last_point:
  assumes "0 \<le> dy" "dy \<le> dx"
  shows "last (bresenham_loop_x (nat (dx + 1)) dx dy 1 1 0 0 (2 * dy - dx)) = (dx, dy)"
proof (cases "dx = 0")
  case True
  with assms show ?thesis by (simp add: Let_def)
next
  case False
  with assms have pos: "0 < dx" by simp
  then have n: "nat (dx + 1) = Suc (nat dx)" by simp
  have "bres_inv dx dy 0 0 (2 * dy - dx)"
    using assms pos by (simp add: bres_inv_def)
  from loop_x_last [OF assms this, of "nat dx"] pos obtain b' p' where
    l: "last (bresenham_loop_x (Suc (nat dx)) dx dy 1 1 0 0 (2 * dy - dx)) = (dx, b')"
    and i: "bres_inv dx dy dx b' p'" by auto
  from bres_inv_final [OF pos i] l n show ?thesis by simp
qed


lemma loop_x_nonempty: "bresenham_loop_x (nat (d + 1)) dx dy sx sy x y p \<noteq> []" if "0 \<le> d"
proof -
  from that have "nat (d + 1) = Suc (nat d)" by simp
  then show ?thesis by simp
qed

lemma loop_x_hd: "0 \<le> d \<Longrightarrow> hd (bresenham_loop_x (nat (d + 1)) dx dy sx sy x y p) = (x, y)"
proof -
  assume "0 \<le> d"
  then have "nat (d + 1) = Suc (nat d)" by simp
  then show ?thesis by simp
qed

lemma loop_x_end:
  assumes "0 \<le> dy" "dy \<le> dx"
  shows "last (bresenham_loop_x (nat (dx + 1)) dx dy sx sy x y (2 * dy - dx)) =
         (x + sx * dx, y + sy * dy)"
proof -
  have ne: "bresenham_loop_x (nat (dx + 1)) dx dy 1 1 0 0 (2 * dy - dx) \<noteq> []"
    using assms by (intro loop_x_nonempty) simp
  show ?thesis
    by (subst loop_x_offsets) (simp add: last_map [OF ne] loop_x_last_point [OF assms])
qed

lemma bresenham_line_length:
  "length (bresenham_line x1 y1 x2 y2) = nat (max \<bar>x2 - x1\<bar> \<bar>y2 - y1\<bar>) + 1"
  by (simp add: bresenham_line_def Let_def loop_y_swap loop_x_length nat_add_distrib max_def)

lemma bresenham_line_hd: "hd (bresenham_line x1 y1 x2 y2) = (x1, y1)"
  by (simp add: bresenham_line_def Let_def loop_y_swap loop_x_hd hd_map loop_x_nonempty)

lemma bresenham_line_last: "last (bresenham_line x1 y1 x2 y2) = (x2, y2)"
proof (cases "\<bar>x2 - x1\<bar> > \<bar>y2 - y1\<bar>")
  case True
  then have "last (bresenham_line x1 y1 x2 y2) =
      (x1 + (if x2 > x1 then 1 else - 1) * \<bar>x2 - x1\<bar>,
       y1 + (if y2 > y1 then 1 else - 1) * \<bar>y2 - y1\<bar>)"
    by (simp add: bresenham_line_def Let_def loop_x_end del: bresenham_loop_x.simps)
  then show ?thesis by (simp split: if_splits)
next
  case False
  then have "last (bresenham_line x1 y1 x2 y2) =
      prod.swap (y1 + (if y2 > y1 then 1 else - 1) * \<bar>y2 - y1\<bar>,
       x1 + (if x2 > x1 then 1 else - 1) * \<bar>x2 - x1\<bar>)"
    by (simp add: bresenham_line_def Let_def loop_y_swap last_map loop_x_nonempty loop_x_end
        del: bresenham_loop_x.simps)
  then show ?thesis by (simp split: if_splits)
qed

text \<open>
  Claim C1. For all integer endpoints, \<open>bresenham_line x1 y1 x2 y2\<close> is a list of exactly
  \<open>max \<bar>dx\<bar> \<bar>dy\<bar> + 1\<close> points, its first element is \<open>(x1, y1)\<close> and its last element is
  \<open>(x2, y2)\<close>; when the endpoints coincide it is the single point \<open>(x1, y1)\<close>.
\<close>

theorem bresenham_line_endpoints:
  "length (bresenham_line x1 y1 x2 y2) = nat (max \<bar>x2 - x1\<bar> \<bar>y2 - y1\<bar>) + 1 \<and>
   hd (bresenham_line x1 y1 x2 y2) = (x1, y1) \<and>
   last (bresenham_line x1 y1 x2 y2) = (x2, y2) \<and>
   bresenham_line x1 y1 x1 y1 = [(x1, y1)]"
  by (simp add: bresenham_line_length bresenham_line_hd bresenham_line_last)
     (simp add: bresenham_line_def)

subsection \<open>Transform2D: the last row\<close>

text \<open>
  Claim C9. Every matrix built by \<open>translation_matrix\<close>, \<open>scaling_matrix\<close>,
  \<open>rotation_matrix\<close>, \<open>shear_matrix\<close>, \<open>reflect_x\<close>, \<open>reflect_y\<close>, \<open>reflect_origin\<close>,
  \<open>rotation_about_point\<close> and \<open>scaling_about_point\<close> has the last row \<open>(0, 0, 1)\<close>, for all
  real parameters.
\<close>

theorem transform_last_row:
  "last_row (translation_matrix tx ty) = (0, 0, 1) \<and>
   last_row (scaling_matrix sx sy) = (0, 0, 1) \<and>
   last_row (rotation_matrix angle_degrees) = (0, 0, 1) \<and>
   last_row (shear_matrix shx shy) = (0, 0, 1) \<and>
   last_row reflect_x = (0, 0, 1) \<and>
   last_row reflect_y = (0, 0, 1) \<and>
   last_row reflect_origin = (0, 0, 1) \<and>
   last_row (rotation_about_point angle_degrees px py) = (0, 0, 1) \<and>
   last_row (scaling_about_point sx sy px py) = (0, 0, 1)"
  by (simp add: last_row_def translation_matrix_def scaling_matrix_def rotation_matrix_def
      shear_matrix_def reflect_x_def reflect_y_def reflect_origin_def
      rotation_about_point_def scaling_about_point_def matmul_def Let_def)

subsection \<open>Circles of radius zero and of negative radius\<close>

lemma midpoint_circle_zero: "midpoint_circle xc yc 0 = replicate 8 (xc, yc)"
  by (simp add: midpoint_circle_def plot_circle_points_def numeral_eq_Suc)

lemma filled_circle_zero: "filled_circle xc yc 0 = [(xc, yc)]"
  by (simp add: filled_circle_def draw_horizontal_line_def Let_def)

lemma midpoint_circle_neg:
  "r < 0 \<Longrightarrow> midpoint_circle xc yc r = plot_circle_points xc yc 0 r"
  by (simp add: midpoint_circle_def)

lemma filled_circle_neg: "r < 0 \<Longrightarrow> filled_circle xc yc r = []"
  by (simp add: filled_circle_def)

text \<open>
  Claim C4, as amended. With radius \<open>0\<close> both \<open>midpoint_circle\<close> and \<open>filled_circle\<close> return,
  as a set, the single point \<open>(xc, yc)\<close>. With a negative radius \<open>filled_circle\<close> returns
  no point, while \<open>midpoint_circle\<close> returns the four axis points at distance \<open>\<bar>r\<bar>\<close>, which
  it plots before its loop is entered. Both functions are total: no error is raised.
\<close>

theorem circle_degenerate_radius:
  "set (midpoint_circle xc yc 0) = {(xc, yc)} \<and>
   set (filled_circle xc yc 0) = {(xc, yc)} \<and>
   (r < 0 \<longrightarrow>
      set (filled_circle xc yc r) = {} \<and>
      set (midpoint_circle xc yc r) = {(xc, yc + r), (xc, yc - r), (xc + r, yc), (xc - r, yc)})"
  by (auto simp: midpoint_circle_zero filled_circle_zero midpoint_circle_neg filled_circle_neg
      plot_circle_points_def)

theorem circle_degenerate_radius_witness:
  "(- 2 :: int) < 0 \<and> set (filled_circle 0 0 (- 2)) = {} \<and>
   set (midpoint_circle 0 0 (- 2)) = {(0, - 2), (0, 2), (- 2, 0), (2, 0)}"
  using circle_degenerate_radius [of 0 0 "- 2"] by auto

text \<open>
  The claim as stated fails: \<open>midpoint_circle\<close> with radius \<open>-2\<close> does not return the empty
  set.
\<close>

theorem midpoint_circle_negative_counterexample:
  "set (midpoint_circle 0 0 (- 2)) \<noteq> {}"
  by (simp add: midpoint_circle_def plot_circle_points_def)

subsection \<open>The filled circle of radius 10 at (50, 50)\<close>

lemma filled_circle_loop_50_50_10:
  "list_all (\<lambda>(x, y). (x - 50)\<^sup>2 + (y - 50)\<^sup>2 \<le> 114)
     (filled_circle_loop 50 50 0 10 (1 - 10) [])"
  by (simp add: draw_horizontal_line_def Let_def upto.simps)

lemma sqrt_within_tolerance:
  assumes "v \<le> 114"
  shows "sqrt (real_of_int v) \<le> 10 + 0.71"
proof (rule real_le_lsqrt)
  have "real_of_int v \<le> 114" using assms by simp
  also have "(114::real) \<le> (10 + 0.71)\<^sup>2" by (simp add: power2_eq_square)
  finally show "real_of_int v \<le> (10 + 0.71)\<^sup>2" .
qed simp

text \<open>
  Claim C8. Every point \<open>(x, y)\<close> of \<open>filled_circle 50 50 10\<close> satisfies
  \<open>sqrt ((x - 50)\<^sup>2 + (y - 50)\<^sup>2) \<le> 10 + 0.71\<close>, and no point is returned twice.
\<close>

theorem filled_circle_50_50_10:
  "(\<forall>(x, y) \<in> set (filled_circle 50 50 10).
      sqrt (real_of_int ((x - 50)\<^sup>2 + (y - 50)\<^sup>2)) \<le> 10 + 0.71) \<and>
   distinct (filled_circle 50 50 10)"
proof
  have "\<forall>(x, y) \<in> set (filled_circle 50 50 10). (x - 50)\<^sup>2 + (y - 50)\<^sup>2 \<le> 114"
    using filled_circle_loop_50_50_10
    unfolding filled_circle_def set_remdups list_all_iff by (simp only:)
  then have "sqrt (real_of_int ((fst q - 50)\<^sup>2 + (snd q - 50)\<^sup>2)) \<le> 10 + 0.71"
    if "q \<in> set (filled_circle 50 50 10)" for q
    using that by (intro sqrt_within_tolerance) (auto simp: case_prod_unfold)
  then show "\<forall>(x, y) \<in> set (filled_circle 50 50 10).
      sqrt (real_of_int ((x - 50)\<^sup>2 + (y - 50)\<^sup>2)) \<le> 10 + 0.71"
    unfolding case_prod_unfold by blast
  show "distinct (filled_circle 50 50 10)"
    unfolding filled_circle_def by (rule distinct_remdups)
qed

lemma member_53_60_filled_circle: "(53, 60) \<in> set (filled_circle 50 50 10)"
  unfolding filled_circle_def set_remdups
  by (simp add: draw_horizontal_line_def Let_def upto.simps)

theorem filled_circle_50_50_10_witness:
  "(53, 60) \<in> set (filled_circle 50 50 10) \<and>
   sqrt (real_of_int ((53 - 50)\<^sup>2 + (60 - 50)\<^sup>2)) \<le> 10 + 0.71"
proof -
  have "case (53, 60) of (x, y) \<Rightarrow>
          sqrt (real_of_int ((x - 50)\<^sup>2 + (y - 50)\<^sup>2)) \<le> 10 + 0.71"
    using filled_circle_50_50_10 member_53_60_filled_circle by blast
  then show ?thesis
    using member_53_60_filled_circle by (simp only: prod.case simp_thms)
qed

subsection \<open>Ellipses with a zero semi-axis\<close>

text \<open>
  Region 1 always ends: \<open>px\<close> grows by \<open>2 * ry2 > 0\<close> in every iteration while \<open>py\<close> does not
  grow; and with \<open>ry = 0\<close> the loop is not entered, since then \<open>px = py = 0\<close>.
\<close>

lemma midpoint_ellipse_region1_total:
  assumes "0 < ry2" "0 \<le> rx2"
  shows "\<exists>r. midpoint_ellipse_region1 xc yc rx2 ry2 x y px py p1 points = Some r"
proof (induction "nat (py - px)" arbitrary: x y px py p1 points rule: less_induct)
  case less
  show ?case
  proof (cases "px < py")
    case True
    let ?px = "px + 2 * ry2"
    let ?py = "if p1 < 0 then py else py - 2 * rx2"
    have "nat (?py - ?px) < nat (py - px)" using True assms by auto
    from less [OF this] show ?thesis
      by (subst midpoint_ellipse_region1.simps) (simp add: True Let_def)
  next
    case False
    then show ?thesis by (subst midpoint_ellipse_region1.simps) simp
  qed
qed

lemma filled_ellipse_region1_total:
  assumes "0 < ry2" "0 \<le> rx2"
  shows "\<exists>r. filled_ellipse_region1 xc yc rx2 ry2 x y px py p1 points = Some r"
proof (induction "nat (py - px)" arbitrary: x y px py p1 points rule: less_induct)
  case less
  show ?case
  proof (cases "px < py")
    case True
    let ?px = "px + 2 * ry2"
    let ?py = "if p1 < 0 then py else py - 2 * rx2"
    have "nat (?py - ?px) < nat (py - px)" using True assms by auto
    from less [OF this] show ?thesis
      by (subst filled_ellipse_region1.simps) (simp add: True Let_def)
  next
    case False
    then show ?thesis by (subst filled_ellipse_region1.simps) simp
  qed
qed

lemma midpoint_ellipse_region1_skip:
  "\<not> px < py \<Longrightarrow>
   midpoint_ellipse_region1 xc yc rx2 ry2 x y px py p1 points = Some (x, y, px, py, points)"
  by (subst midpoint_ellipse_region1.simps) simp

lemma filled_ellipse_region1_skip:
  "\<not> px < py \<Longrightarrow>
   filled_ellipse_region1 xc yc rx2 ry2 x y px py p1 points = Some (x, y, px, py, points)"
  by (subst filled_ellipse_region1.simps) simp

lemma midpoint_ellipse_total: "midpoint_ellipse xc yc rx ry \<noteq> None"
proof (cases "ry = 0")
  case True
  then show ?thesis
    by (simp add: midpoint_ellipse_def Let_def midpoint_ellipse_region1_skip)
next
  case False
  then have "0 < ry * ry" "0 \<le> rx * rx" by (auto simp: zero_less_mult_iff)
  from midpoint_ellipse_region1_total [OF this] show ?thesis
    by (auto simp: midpoint_ellipse_def Let_def split: option.splits)
qed

lemma filled_ellipse_total: "filled_ellipse xc yc rx ry \<noteq> None"
proof (cases "ry = 0")
  case True
  then show ?thesis
    by (simp add: filled_ellipse_def Let_def filled_ellipse_region1_skip)
next
  case False
  then have "0 < ry * ry" "0 \<le> rx * rx" by (auto simp: zero_less_mult_iff)
  from filled_ellipse_region1_total [OF this] show ?thesis
    by (auto simp: filled_ellipse_def Let_def split: option.splits)
qed

text \<open>A zero vertical semi-axis: a single point.\<close>

lemma midpoint_ellipse_ry_zero:
  "midpoint_ellipse xc yc rx 0 = Some (replicate 4 (xc, yc))"
  by (simp add: midpoint_ellipse_def Let_def midpoint_ellipse_region1_skip
      plot_ellipse_points_def numeral_eq_Suc)

lemma filled_ellipse_ry_zero: "filled_ellipse xc yc rx 0 = Some [(xc, yc)]"
  by (simp add: filled_ellipse_def Let_def filled_ellipse_region1_skip
      draw_horizontal_line_def)

text \<open>A zero horizontal semi-axis: region 2 walks down the vertical axis.\<close>

lemma midpoint_ellipse_region2_vertical:
  assumes "0 < p2"
  shows "set (midpoint_ellipse_region2 xc yc 0 ry2 0 y px 0 p2 points) =
         set points \<union> {(xc, yc + j) | j. 0 \<le> j \<and> j < y} \<union> {(xc, yc - j) | j. 0 \<le> j \<and> j < y}"
  using assms
proof (induction "nat y" arbitrary: y points)
  case 0
  then show ?case by auto
next
  case (Suc n)
  then have y: "0 < y" "n = nat (y - 1)" by auto
  have "set (midpoint_ellipse_region2 xc yc 0 ry2 0 y px 0 p2 points) =
        set (midpoint_ellipse_region2 xc yc 0 ry2 0 (y - 1) px 0 p2
              (points @ plot_ellipse_points xc yc 0 (y - 1)))"
    using y Suc.prems by (subst midpoint_ellipse_region2.simps) (simp add: Let_def)
  also have "\<dots> = set (points @ plot_ellipse_points xc yc 0 (y - 1)) \<union>
      {(xc, yc + j) | j. 0 \<le> j \<and> j < y - 1} \<union> {(xc, yc - j) | j. 0 \<le> j \<and> j < y - 1}"
    by (rule Suc.hyps(1) [OF y(2) Suc.prems])
  also have "\<dots> = set points \<union> {(xc, yc + j) | j. 0 \<le> j \<and> j < y} \<union>
      {(xc, yc - j) | j. 0 \<le> j \<and> j < y}"
    using y(1) by (auto simp: plot_ellipse_points_def)
  finally show ?case .
qed

lemma filled_ellipse_region2_vertical:
  assumes "0 < p2"
  shows "set (filled_ellipse_region2 xc yc 0 ry2 0 y px 0 p2 points) =
         set points \<union> {(xc, yc + j) | j. 0 \<le> j \<and> j \<le> y} \<union> {(xc, yc - j) | j. 0 \<le> j \<and> j \<le> y}"
  using assms
proof (induction "nat (y + 1)" arbitrary: y points)
  case 0
  then show ?case by auto
next
  case (Suc n)
  then have y: "0 \<le> y" "n = nat (y - 1 + 1)" by auto
  let ?points = "points @ draw_horizontal_line (xc - 0) (xc + 0) (yc + y)
                   @ draw_horizontal_line (xc - 0) (xc + 0) (yc - y)"
  have "set (filled_ellipse_region2 xc yc 0 ry2 0 y px 0 p2 points) =
        set (filled_ellipse_region2 xc yc 0 ry2 0 (y - 1) px 0 p2 ?points)"
    using y Suc.prems by (subst filled_ellipse_region2.simps) (simp add: Let_def)
  also have "\<dots> = set ?points \<union>
      {(xc, yc + j) | j. 0 \<le> j \<and> j \<le> y - 1} \<union> {(xc, yc - j) | j. 0 \<le> j \<and> j \<le> y - 1}"
    by (rule Suc.hyps(1) [OF y(2) Suc.prems])
  also have "\<dots> = set points \<union> {(xc, yc + j) | j. 0 \<le> j \<and> j \<le> y} \<union>
      {(xc, yc - j) | j. 0 \<le> j \<and> j \<le> y}"
    using y(1) by (auto simp: draw_horizontal_line_def)
  finally show ?case .
qed

lemma vertical_segment_eq:
  "0 \<le> ry \<Longrightarrow>
   {(xc, yc + j) | j. 0 \<le> j \<and> j \<le> ry} \<union> {(xc, yc - j) | j. 0 \<le> j \<and> j \<le> ry} =
   {(xc, v) | v. yc - ry \<le> v \<and> v \<le> yc + (ry :: int)}"
proof -
  have "\<exists>j. v = yc + j \<and> 0 \<le> j \<and> j \<le> ry" if "yc \<le> v" "v \<le> yc + ry" for v
    using that by (intro exI [of _ "v - yc"]) auto
  moreover have "\<exists>j. v = yc - j \<and> 0 \<le> j \<and> j \<le> ry" if "v \<le> yc" "yc - ry \<le> v" for v
    using that by (intro exI [of _ "yc - v"]) auto
  ultimately show ?thesis by auto (metis linear)
qed

lemma midpoint_ellipse_rx_zero:
  assumes "0 < ry"
  shows "\<exists>pts. midpoint_ellipse xc yc 0 ry = Some pts \<and>
           set pts = {(xc, v) | v. yc - ry \<le> v \<and> v \<le> yc + ry}"
proof -
  let ?p2 = "real_of_int (ry * ry) * (real_of_int 0 + 0.5)\<^sup>2
     + real_of_int 0 * (real_of_int (ry - 1))\<^sup>2 - real_of_int (0 * (ry * ry))"
  have p2: "0 < ?p2" using assms by (simp add: zero_less_mult_iff)
  have eq: "midpoint_ellipse xc yc 0 ry =
      Some (midpoint_ellipse_region2 xc yc 0 (ry * ry) 0 ry 0 0 ?p2
             (plot_ellipse_points xc yc 0 ry))"
    by (simp add: midpoint_ellipse_def Let_def midpoint_ellipse_region1_skip)
  have "set (midpoint_ellipse_region2 xc yc 0 (ry * ry) 0 ry 0 0 ?p2
             (plot_ellipse_points xc yc 0 ry)) =
        {(xc, yc + j) | j. 0 \<le> j \<and> j \<le> ry} \<union> {(xc, yc - j) | j. 0 \<le> j \<and> j \<le> ry}"
    unfolding midpoint_ellipse_region2_vertical [OF p2]
    using assms by (auto simp: plot_ellipse_points_def)
  with eq vertical_segment_eq [of ry xc yc] assms show ?thesis by simp
qed

lemma filled_ellipse_rx_zero:
  assumes "0 < ry"
  shows "\<exists>pts. filled_ellipse xc yc 0 ry = Some pts \<and>
           set pts = {(xc, v) | v. yc - ry \<le> v \<and> v \<le> yc + ry}"
proof -
  let ?p2 = "real_of_int (ry * ry) * (real_of_int 0 + 0.5)\<^sup>2
     + real_of_int 0 * (real_of_int (ry - 1))\<^sup>2 - real_of_int (0 * (ry * ry))"
  have p2: "0 < ?p2" using assms by (simp add: zero_less_mult_iff)
  have eq: "filled_ellipse xc yc 0 ry =
      Some (remdups (filled_ellipse_region2 xc yc 0 (ry * ry) 0 ry 0 0 ?p2 []))"
    by (simp add: filled_ellipse_def Let_def filled_ellipse_region1_skip)
  have "set (remdups (filled_ellipse_region2 xc yc 0 (ry * ry) 0 ry 0 0 ?p2 [])) =
        {(xc, yc + j) | j. 0 \<le> j \<and> j \<le> ry} \<union> {(xc, yc - j) | j. 0 \<le> j \<and> j \<le> ry}"
    unfolding set_remdups filled_ellipse_region2_vertical [OF p2] by simp
  with eq vertical_segment_eq [of ry xc yc] assms show ?thesis by simp
qed

text \<open>
  Claim C7, as amended. For every center: with \<open>rx = 0\<close> and \<open>ry > 0\<close>, \<open>midpoint_ellipse\<close>
  and \<open>filled_ellipse\<close> return, as a set, the vertical segment from \<open>(xc, yc - ry)\<close> to
  \<open>(xc, yc + ry)\<close>; with \<open>ry = 0\<close> they return the single center point, whatever \<open>rx\<close> is
  (so for \<open>rx > 0\<close> too, and when both semi-axes are zero); and both functions return
  a result for every input.
\<close>

theorem ellipse_zero_axis:
  "(0 < ry \<longrightarrow>
      (\<exists>pts. midpoint_ellipse xc yc 0 ry = Some pts \<and>
             set pts = {(xc, v) | v. yc - ry \<le> v \<and> v \<le> yc + ry}) \<and>
      (\<exists>pts. filled_ellipse xc yc 0 ry = Some pts \<and>
             set pts = {(xc, v) | v. yc - ry \<le> v \<and> v \<le> yc + ry})) \<and>
   (\<exists>pts. midpoint_ellipse xc yc rx 0 = Some pts \<and> set pts = {(xc, yc)}) \<and>
   (\<exists>pts. filled_ellipse xc yc rx 0 = Some pts \<and> set pts = {(xc, yc)}) \<and>
   midpoint_ellipse xc yc rx ry \<noteq> None \<and>
   filled_ellipse xc yc rx ry \<noteq> None"
  using midpoint_ellipse_rx_zero [of ry xc yc] filled_ellipse_rx_zero [of ry xc yc]
  by (simp add: midpoint_ellipse_ry_zero filled_ellipse_ry_zero
      midpoint_ellipse_total filled_ellipse_total)

theorem ellipse_zero_axis_witness:
  "(0 :: int) < 2 \<and>
   (\<exists>pts. midpoint_ellipse 0 0 0 2 = Some pts \<and>
      set pts = {(0, - 2), (0, - 1), (0, 0), (0, 1), (0, 2)}) \<and>
   (\<exists>pts. filled_ellipse 0 0 0 2 = Some pts \<and>
      set pts = {(0, - 2), (0, - 1), (0, 0), (0, 1), (0, 2)})"
proof -
  have "{(0, v) | v. 0 - 2 \<le> v \<and> v \<le> 0 + (2::int)} =
        {(0::int, - 2), (0, - 1), (0, 0), (0, 1), (0, 2)}"
    by auto
  with ellipse_zero_axis [of 2 0 0 0] show ?thesis by simp
qed

text \<open>
  The claim as stated fails for \<open>ry = 0\<close>, \<open>rx = 3\<close>: the end \<open>(3, 0)\<close> of the horizontal
  segment is not returned.
\<close>

theorem midpoint_ellipse_ry_zero_counterexample:
  "\<exists>pts. midpoint_ellipse 0 0 3 0 = Some pts \<and> (3, 0) \<notin> set pts"
  by (simp add: midpoint_ellipse_def Let_def midpoint_ellipse_region1_skip
      plot_ellipse_points_def)

subsection \<open>Scanline fill of the square (0,0), (10,0), (10,10), (0,10)\<close>

lemma py_int_of_int: "py_int (real_of_int k) = k"
  by (simp add: py_int_def)

lemma scanline_square_row:
  assumes "0 \<le> y" "y \<le> 9"
  shows "scanline [(0, 0), (10, 0), (10, 10), (0, 10)] y = map (\<lambda>x. (x, y)) [0..10]"
proof -
  have ints: "concat (map (scanline_at [(0, 0), (10, 0), (10, 10), (0, 10)] y)
                [0..<length [(0, 0), (10, 0), (10, 10), (0 :: real, 10 :: real)]]) = [10, 0]"
    using assms by (simp add: scanline_at_def upt_rec)
  have srt: "sort [10, 0 :: real] = [0, 10]" by simp
  have sp: "fill_spans [0, 10] y = map (\<lambda>x. (x, y)) [0..10]"
    using py_int_of_int [of 0] py_int_of_int [of 10]
    by (simp add: fill_spans_def Let_def del: upto.simps)
  show ?thesis
    unfolding scanline_def Let_def ints srt sp ..
qed

lemma scanline_square_top:
  "scanline [(0, 0), (10, 0), (10, 10), (0, 10)] 10 = []"
proof -
  have ints: "concat (map (scanline_at [(0, 0), (10, 0), (10, 10), (0, 10)] 10)
                [0..<length [(0, 0), (10, 0), (10, 10), (0 :: real, 10 :: real)]]) = []"
    by (simp add: scanline_at_def upt_rec)
  have sp: "fill_spans (sort []) 10 = []"
    by (simp add: fill_spans_def)
  show ?thesis
    unfolding scanline_def Let_def ints sp ..
qed

lemma square_fill_rows:
  "filled_polygon [(0, 0), (10, 0), (10, 10), (0, 10)] =
     concat (map (\<lambda>y. map (\<lambda>x. (x, y)) [0..10]) [0..9])"
proof -
  have rng: "[0..10] = [0..9] @ [10::int]" by (simp add: upto_rec2)
  have "filled_polygon [(0, 0), (10, 0), (10, 10), (0, 10)] =
        concat (map (scanline [(0, 0), (10, 0), (10, 10), (0, 10)]) [0..10])"
    using py_int_of_int [of 0] py_int_of_int [of 10]
    by (simp add: filled_polygon_def Let_def del: upto.simps)
  also have "\<dots> = concat (map (scanline [(0, 0), (10, 0), (10, 10), (0, 10)]) [0..9])"
    unfolding rng by (simp add: scanline_square_top del: upto.simps)
  also have "map (scanline [(0, 0), (10, 0), (10, 10), (0, 10)]) [0..9] =
             map (\<lambda>y. map (\<lambda>x. (x, y)) [0..10]) [0..9]"
    by (rule map_cong [OF refl]) (simp add: scanline_square_row del: upto.simps)
  finally show ?thesis .
qed

text \<open>
  Claim C2, as amended. \<open>filled_polygon\<close> applied to the square with vertices \<open>(0,0)\<close>,
  \<open>(10,0)\<close>, \<open>(10,10)\<close>, \<open>(0,10)\<close> returns, as a set, exactly the 110 points with
  \<open>0 \<le> x \<le> 10\<close> and \<open>0 \<le> y \<le> 9\<close>: an edge is counted on scanline \<open>y\<close> only when
  \<open>min y1 y2 \<le> y < max y1 y2\<close>, so the scanline \<open>y = 10\<close> meets no edge.
\<close>

theorem filled_polygon_square:
  "set (filled_polygon [(0, 0), (10, 0), (10, 10), (0, 10)]) = {0..10} \<times> {0..9} \<and>
   length (filled_polygon [(0, 0), (10, 0), (10, 10), (0, 10)]) = 110"
proof
  show "set (filled_polygon [(0, 0), (10, 0), (10, 10), (0, 10)]) = {0..10} \<times> {0..9}"
    unfolding square_fill_rows by auto
  show "length (filled_polygon [(0, 0), (10, 0), (10, 10), (0, 10)]) = 110"
    unfolding square_fill_rows
    by (simp add: length_concat comp_def sum_list_triv del: upto.simps)
qed

text \<open>The claim as stated fails: the result is not the set of the 121 points.\<close>

theorem filled_polygon_square_counterexample:
  "set (filled_polygon [(0, 0), (10, 0), (10, 10), (0, 10)]) \<noteq>
     {(x, y). 0 \<le> x \<and> x \<le> 10 \<and> 0 \<le> y \<and> y \<le> 10}"
proof -
  have "(0, 10) \<notin> set (filled_polygon [(0, 0), (10, 0), (10, 10), (0, 10)])"
    unfolding square_fill_rows by auto
  then show ?thesis by auto
qed

subsection \<open>Rounding, and evaluating the operations on Python's numbers\<close>

text \<open>\<open>binary_exponent\<close> is the exponent of the leading bit.\<close>

lemma binary_exponent_bounds:
  assumes "x \<noteq> 0"
  shows "2 powi binary_exponent x \<le> \<bar>x\<bar>" "\<bar>x\<bar> < 2 powi (binary_exponent x + 1)"
proof -
  have "2 powi binary_exponent x \<le> \<bar>x\<bar> \<and> \<bar>x\<bar> < 2 powi (binary_exponent x + 1)"
  proof (cases "1 \<le> \<bar>x\<bar>")
    case True
    define a where "a = \<lfloor>\<bar>x\<bar>\<rfloor>"
    from True have a: "0 < a" by (simp add: a_def)
    then have k: "1 \<le> bitlen a" by (simp add: bitlen_alt_def)
    from bitlen_bounds [OF a] have lo: "2 ^ nat (bitlen a - 1) \<le> a" and hi: "a < 2 ^ nat (bitlen a)"
      by simp_all
    have e: "binary_exponent x = bitlen a - 1" using True by (simp add: binary_exponent_def a_def)
    have "(2::real) powi (bitlen a - 1) = 2 ^ nat (bitlen a - 1)"
      using k by (simp add: power_int_def)
    also have "\<dots> = real_of_int (2 ^ nat (bitlen a - 1))" by simp
    also have "\<dots> \<le> real_of_int a" using lo by (simp only: of_int_le_iff)
    also have "\<dots> \<le> \<bar>x\<bar>" by (simp add: a_def)
    finally have 1: "2 powi (bitlen a - 1) \<le> \<bar>x\<bar>" .
    from hi have "a + 1 \<le> 2 ^ nat (bitlen a)" by simp
    then have "real_of_int (a + 1) \<le> real_of_int (2 ^ nat (bitlen a))" by (simp only: of_int_le_iff)
    moreover have "\<bar>x\<bar> < real_of_int (a + 1)" by (simp add: a_def)
    ultimately have "\<bar>x\<bar> < 2 ^ nat (bitlen a)" by simp
    also have "(2::real) ^ nat (bitlen a) = 2 powi (bitlen a - 1 + 1)"
      using k by (simp add: power_int_def)
    finally show ?thesis using 1 e by simp
  next
    case False
    with assms have x: "0 < \<bar>x\<bar>" "\<bar>x\<bar> < 1" by simp_all
    define c where "c = \<lceil>1 / \<bar>x\<bar>\<rceil>"
    define b where "b = c - 1"
    from x have "1 < 1 / \<bar>x\<bar>" by simp
    then have "1 < c" unfolding c_def by (simp add: less_ceiling_iff)
    then have b: "0 < b" by (simp add: b_def)
    then have k: "1 \<le> bitlen b" by (simp add: bitlen_alt_def)
    from bitlen_bounds [OF b] have lo: "2 ^ nat (bitlen b - 1) \<le> b" and hi: "b < 2 ^ nat (bitlen b)"
      by simp_all
    have e: "binary_exponent x = - bitlen b" using False by (simp add: binary_exponent_def b_def c_def)
    have "1 / \<bar>x\<bar> \<le> real_of_int c" by (simp add: c_def)
    also have "c \<le> 2 ^ nat (bitlen b)" using hi by (simp add: b_def)
    then have "real_of_int c \<le> real_of_int (2 ^ nat (bitlen b))" by (simp only: of_int_le_iff)
    finally have "1 / \<bar>x\<bar> \<le> 2 ^ nat (bitlen b)" by simp
    then have "1 / 2 ^ nat (bitlen b) \<le> \<bar>x\<bar>" using x(1) by (simp add: field_simps)
    moreover have "(2::real) powi (- bitlen b) = 1 / 2 ^ nat (bitlen b)"
      using k by (simp add: power_int_def field_simps)
    ultimately have 1: "2 powi (- bitlen b) \<le> \<bar>x\<bar>" by simp
    have "(2::real) ^ nat (bitlen b - 1) = real_of_int (2 ^ nat (bitlen b - 1))" by simp
    also have "\<dots> \<le> real_of_int b" using lo by (simp only: of_int_le_iff)
    also have "real_of_int b < 1 / \<bar>x\<bar>" unfolding b_def c_def by linarith
    finally have "2 ^ nat (bitlen b - 1) < 1 / \<bar>x\<bar>" .
    then have "\<bar>x\<bar> < 1 / 2 ^ nat (bitlen b - 1)" using x(1) by (simp add: field_simps)
    moreover have "(2::real) powi (- bitlen b + 1) = 1 / 2 ^ nat (bitlen b - 1)"
    proof (cases "bitlen b = 1")
      case True
      then show ?thesis by simp
    next
      case False
      with k have "- bitlen b + 1 < 0" by simp
      then have "(2::real) powi (- bitlen b + 1) = inverse 2 ^ nat (- (- bitlen b + 1))"
        by (simp add: power_int_def)
      also have "nat (- (- bitlen b + 1)) = nat (bitlen b - 1)" by simp
      finally show ?thesis by (simp add: field_simps power_inverse)
    qed
    ultimately show ?thesis using 1 e by simp
  qed
  then show "2 powi binary_exponent x \<le> \<bar>x\<bar>" "\<bar>x\<bar> < 2 powi (binary_exponent x + 1)"
    by simp_all
qed

text \<open>The definitions that a run on concrete numbers unfolds.\<close>

lemmas round_double_eval =
  round_double_def binary_exponent_def round_half_even_def Let_def compute_bitlen

lemmas py_eval =
  and_then_def float_op_def add_r_def sub_r_def mul_r_def div_r_def fl_sub_def
  py_lt_def py_gt_def py_ge_def fl_signed_inf_def

lemmas clip_line_eval =
  clip_line_def compute_code_def find_intersection_def code_out_def
  INSIDE_def LEFT_def RIGHT_def BOTTOM_def TOP_def

lemmas clip_polygon_py_eval =
  clip_polygon_py_def clip_edge_py_def clip_edge_at_py_def inside_py_def intersection_py_def
  parallel_eps_py_def upt_rec

text \<open>
  Some roundings: \<open>0.1\<close> and \<open>1e-10\<close> are not doubles; an int of 54 bits or more may lose
  its last bits, a tie going to the even neighbour.
\<close>

lemma round_double_examples:
  "round_double (1 / 10) = Finite (3602879701896397 / 2 ^ 55)"
  "round_double (1 / 10 ^ 10) = Finite (7737125245533627 / 2 ^ 86)"
  "round_double (2 ^ 53 + 1) = Finite (2 ^ 53)"
  "round_double (2 ^ 53 + 3) = Finite (2 ^ 53 + 4)"
  "round_double (2 ^ 60 - 1) = Finite (2 ^ 60)"
  "round_double (- (3 / 4)) = Finite (- (3 / 4))"
  by (simp_all add: round_double_eval)

subsection \<open>Sutherland-Hodgman: where the output lies\<close>

text \<open>
  \<open>edge_side\<close> is the cross product that \<open>inside\<close> tests; \<open>on_segment p1 p2 q\<close> says that
  \<open>q\<close> is a convex combination of \<open>p1\<close> and \<open>p2\<close>.
\<close>

definition edge_side :: "point \<Rightarrow> point \<Rightarrow> point \<Rightarrow> real" where
  "edge_side edge_start edge_end p =
     (fst edge_end - fst edge_start) * (snd p - snd edge_start)
       - (snd edge_end - snd edge_start) * (fst p - fst edge_start)"

definition on_segment :: "point \<Rightarrow> point \<Rightarrow> point \<Rightarrow> bool" where
  "on_segment p1 p2 q \<longleftrightarrow>
     (\<exists>t. 0 \<le> t \<and> t \<le> 1 \<and>
          q = (fst p1 + t * (fst p2 - fst p1), snd p1 + t * (snd p2 - snd p1)))"

text \<open>
  The denominator of \<open>intersection\<close> is the difference of the two cross products and its
  numerator is the first one, so the point it computes lies on the clip edge's line and
  between its two arguments whenever exactly one of them is inside.
\<close>

lemma inside_edge_side: "inside es ee p \<longleftrightarrow> 0 \<le> edge_side es ee p"
  by (simp add: inside_def edge_side_def)

lemma edge_side_combination:
  "edge_side es ee (fst p1 + t * (fst p2 - fst p1), snd p1 + t * (snd p2 - snd p1)) =
   (1 - t) * edge_side es ee p1 + t * edge_side es ee p2"
  by (simp add: edge_side_def algebra_simps)

lemma on_segment_refl: "on_segment p1 p2 p1"
  unfolding on_segment_def by (intro exI [of _ 0]) simp

lemma edge_side_on_segment:
  assumes "on_segment p1 p2 q" "k < edge_side es ee p1" "k < edge_side es ee p2"
  shows "k < edge_side es ee q"
proof -
  from assms(1) obtain t where t: "0 \<le> t" "t \<le> 1"
    and q: "q = (fst p1 + t * (fst p2 - fst p1), snd p1 + t * (snd p2 - snd p1))"
    unfolding on_segment_def by blast
  have "k = (1 - t) * k + t * k" by (simp add: algebra_simps)
  also have "\<dots> < (1 - t) * edge_side es ee p1 + t * edge_side es ee p2"
  proof (cases "t = 0")
    case True
    with assms(2) show ?thesis by simp
  next
    case False
    with t have "0 < t" by simp
    then have "t * k < t * edge_side es ee p2" using assms(3) by simp
    moreover have "(1 - t) * k \<le> (1 - t) * edge_side es ee p1"
      using t(2) assms(2) by (intro mult_left_mono) auto
    ultimately show ?thesis by linarith
  qed
  finally show ?thesis unfolding q edge_side_combination .
qed

lemma intersection_unfold:
  "intersection es ee p1 p2 =
     (if \<bar>edge_side es ee p1 - edge_side es ee p2\<bar> < parallel_eps then p1
      else (fst p1 + edge_side es ee p1 / (edge_side es ee p1 - edge_side es ee p2)
                       * (fst p2 - fst p1),
            snd p1 + edge_side es ee p1 / (edge_side es ee p1 - edge_side es ee p2)
                       * (snd p2 - snd p1)))"
proof -
  obtain x1 y1 x2 y2 x3 y3 x4 y4 where
    p: "p1 = (x1, y1)" "p2 = (x2, y2)" "es = (x3, y3)" "ee = (x4, y4)"
    by (metis surj_pair)
  have d: "(x1 - x2) * (y3 - y4) - (y1 - y2) * (x3 - x4) =
           edge_side es ee p1 - edge_side es ee p2"
    by (simp add: p edge_side_def algebra_simps)
  have n: "(x1 - x3) * (y3 - y4) - (y1 - y3) * (x3 - x4) = edge_side es ee p1"
    by (simp add: p edge_side_def algebra_simps)
  show ?thesis
    unfolding intersection_def Let_def p prod.case d n by simp
qed

lemma crossing_ratio:
  fixes g1 g2 :: real
  assumes "(0 \<le> g1) \<noteq> (0 \<le> g2)"
  shows "0 \<le> g1 / (g1 - g2)" "g1 / (g1 - g2) \<le> 1"
proof -
  from assms consider "0 \<le> g1" "g2 < 0" | "g1 < 0" "0 \<le> g2" by fastforce
  then show "0 \<le> g1 / (g1 - g2)"
  proof cases
    case 1
    then show ?thesis by simp
  next
    case 2
    then show ?thesis by (simp add: divide_nonpos_neg)
  qed
  from assms consider "0 \<le> g1" "g2 < 0" | "g1 < 0" "0 \<le> g2" by fastforce
  then show "g1 / (g1 - g2) \<le> 1"
  proof cases
    case 1
    then show ?thesis by (simp add: divide_le_eq)
  next
    case 2
    then show ?thesis by (simp add: divide_le_eq)
  qed
qed

lemma intersection_on_segment:
  assumes "inside es ee p1 \<noteq> inside es ee p2"
  shows "on_segment p1 p2 (intersection es ee p1 p2)"
proof (cases "\<bar>edge_side es ee p1 - edge_side es ee p2\<bar> < parallel_eps")
  case True
  then show ?thesis by (simp add: intersection_unfold on_segment_refl)
next
  case False
  from assms have "(0 \<le> edge_side es ee p1) \<noteq> (0 \<le> edge_side es ee p2)"
    by (simp add: inside_edge_side)
  from crossing_ratio [OF this] False show ?thesis
    unfolding on_segment_def intersection_unfold
    by (intro exI [of _ "edge_side es ee p1 / (edge_side es ee p1 - edge_side es ee p2)"]) simp
qed

lemma intersection_side:
  assumes "inside es ee p1 \<noteq> inside es ee p2"
  shows "- parallel_eps < edge_side es ee (intersection es ee p1 p2)"
proof (cases "\<bar>edge_side es ee p1 - edge_side es ee p2\<bar> < parallel_eps")
  case True
  have eps: "0 < parallel_eps" by (simp add: parallel_eps_def)
  from assms have "(0 \<le> edge_side es ee p1) \<noteq> (0 \<le> edge_side es ee p2)"
    by (simp add: inside_edge_side)
  with True eps have "- parallel_eps < edge_side es ee p1" by auto
  with True show ?thesis by (simp add: intersection_unfold)
next
  case False
  then have nz: "edge_side es ee p1 - edge_side es ee p2 \<noteq> 0"
    by (auto simp: parallel_eps_def)
  define t where "t = edge_side es ee p1 / (edge_side es ee p1 - edge_side es ee p2)"
  have "intersection es ee p1 p2 =
        (fst p1 + t * (fst p2 - fst p1), snd p1 + t * (snd p2 - snd p1))"
    using False by (simp only: intersection_unfold t_def if_False)
  then have "edge_side es ee (intersection es ee p1 p2) =
        (1 - t) * edge_side es ee p1 + t * edge_side es ee p2"
    by (simp only: edge_side_combination)
  also have "\<dots> = edge_side es ee p1 - t * (edge_side es ee p1 - edge_side es ee p2)"
    by (simp add: algebra_simps)
  also have "\<dots> = 0" using nz by (simp add: t_def)
  finally have "edge_side es ee (intersection es ee p1 p2) = 0" .
  then show ?thesis by (simp add: parallel_eps_def)
qed

text \<open>
  A pass establishes its own half-plane up to the threshold of the near-parallel test
  (the fall-back returns \<open>current\<close>, which may be outside by less than that), and keeps every
  open half-plane that held for all vertices before.
\<close>

lemma clip_edge_at_cases:
  assumes "q \<in> set (clip_edge_at polygon es ee i)"
  shows "(q = polygon ! ((i + 1) mod length polygon) \<and> inside es ee q) \<or>
         (q = intersection es ee (polygon ! i) (polygon ! ((i + 1) mod length polygon)) \<and>
          inside es ee (polygon ! i) \<noteq> inside es ee (polygon ! ((i + 1) mod length polygon)))"
  using assms by (auto simp: clip_edge_at_def Let_def split: if_splits)

lemma clip_edge_member:
  assumes "q \<in> set (clip_edge polygon es ee)"
  obtains i where "i < length polygon" "q \<in> set (clip_edge_at polygon es ee i)"
  using assms by (auto simp: clip_edge_def split: if_splits)

lemma clip_edge_preserves:
  assumes "\<forall>p \<in> set polygon. k < edge_side a b p" "q \<in> set (clip_edge polygon es ee)"
  shows "k < edge_side a b q"
proof -
  from assms(2) obtain i where i: "i < length polygon"
    and q: "q \<in> set (clip_edge_at polygon es ee i)" by (rule clip_edge_member)
  let ?c = "polygon ! i" and ?n = "polygon ! ((i + 1) mod length polygon)"
  from i have "(i + 1) mod length polygon < length polygon"
    by (intro mod_less_divisor) auto
  with i have mem: "?c \<in> set polygon" "?n \<in> set polygon" by (simp_all only: nth_mem)
  from clip_edge_at_cases [OF q] show ?thesis
  proof
    assume "q = ?n \<and> inside es ee q"
    with mem assms(1) show ?thesis by blast
  next
    assume *: "q = intersection es ee ?c ?n \<and> inside es ee ?c \<noteq> inside es ee ?n"
    then have "on_segment ?c ?n q" using intersection_on_segment by blast
    from edge_side_on_segment [OF this] mem assms(1) show ?thesis by blast
  qed
qed

lemma clip_edge_establishes:
  assumes "q \<in> set (clip_edge polygon es ee)"
  shows "- parallel_eps < edge_side es ee q"
proof -
  from assms obtain i where q: "q \<in> set (clip_edge_at polygon es ee i)"
    by (rule clip_edge_member)
  have eps: "0 < parallel_eps" by (simp add: parallel_eps_def)
  from clip_edge_at_cases [OF q] show ?thesis
  proof
    assume "q = polygon ! ((i + 1) mod length polygon) \<and> inside es ee q"
    then have "0 \<le> edge_side es ee q" using inside_edge_side by blast
    with eps show ?thesis by linarith
  next
    assume "q = intersection es ee (polygon ! i) (polygon ! ((i + 1) mod length polygon)) \<and>
          inside es ee (polygon ! i) \<noteq> inside es ee (polygon ! ((i + 1) mod length polygon))"
    then show ?thesis using intersection_side by blast
  qed
qed

text \<open>The early \<^verbatim>\<open>break\<close> changes nothing: a pass over no vertices returns none.\<close>

lemma clip_edge_Nil: "clip_edge [] es ee = []"
  by (simp add: clip_edge_def)

lemma clip_edges_Cons:
  "clip_edges ((es, ee) # edges) output = clip_edges edges (clip_edge output es ee)"
proof (cases "output = []")
  case True
  have "clip_edges edges [] = []" for edges
    by (induction edges) auto
  with True show ?thesis by (simp add: clip_edge_Nil)
next
  case False
  then show ?thesis by simp
qed

lemma clip_polygon_passes:
  "clip_polygon w polygon =
     clip_edge (clip_edge (clip_edge (clip_edge polygon
         (x_min w, y_min w) (x_max w, y_min w))
         (x_max w, y_min w) (x_max w, y_max w))
         (x_max w, y_max w) (x_min w, y_max w))
         (x_min w, y_max w) (x_min w, y_min w)"
  by (simp only: clip_polygon_def Let_def clip_edges_Cons clip_edges.simps(1))

lemma clip_polygon_sides:
  assumes "q \<in> set (clip_polygon w polygon)"
  shows "- parallel_eps < edge_side (x_min w, y_min w) (x_max w, y_min w) q"
    and "- parallel_eps < edge_side (x_max w, y_min w) (x_max w, y_max w) q"
    and "- parallel_eps < edge_side (x_max w, y_max w) (x_min w, y_max w) q"
    and "- parallel_eps < edge_side (x_min w, y_max w) (x_min w, y_min w) q"
proof -
  let ?P1 = "clip_edge polygon (x_min w, y_min w) (x_max w, y_min w)"
  let ?P2 = "clip_edge ?P1 (x_max w, y_min w) (x_max w, y_max w)"
  let ?P3 = "clip_edge ?P2 (x_max w, y_max w) (x_min w, y_max w)"
  let ?P4 = "clip_edge ?P3 (x_min w, y_max w) (x_min w, y_min w)"
  from assms have q: "q \<in> set ?P4" by (simp only: clip_polygon_passes)
  have b1: "\<forall>p \<in> set ?P1. - parallel_eps < edge_side (x_min w, y_min w) (x_max w, y_min w) p"
    using clip_edge_establishes by blast
  then have b2: "\<forall>p \<in> set ?P2. - parallel_eps < edge_side (x_min w, y_min w) (x_max w, y_min w) p"
    using clip_edge_preserves by blast
  then have b3: "\<forall>p \<in> set ?P3. - parallel_eps < edge_side (x_min w, y_min w) (x_max w, y_min w) p"
    using clip_edge_preserves by blast
  from clip_edge_preserves [OF b3 q]
  show "- parallel_eps < edge_side (x_min w, y_min w) (x_max w, y_min w) q" .
  have r2: "\<forall>p \<in> set ?P2. - parallel_eps < edge_side (x_max w, y_min w) (x_max w, y_max w) p"
    using clip_edge_establishes by blast
  then have r3: "\<forall>p \<in> set ?P3. - parallel_eps < edge_side (x_max w, y_min w) (x_max w, y_max w) p"
    using clip_edge_preserves by blast
  from clip_edge_preserves [OF r3 q]
  show "- parallel_eps < edge_side (x_max w, y_min w) (x_max w, y_max w) q" .
  have t3: "\<forall>p \<in> set ?P3. - parallel_eps < edge_side (x_max w, y_max w) (x_min w, y_max w) p"
    using clip_edge_establishes by blast
  from clip_edge_preserves [OF t3 q]
  show "- parallel_eps < edge_side (x_max w, y_max w) (x_min w, y_max w) q" .
  from clip_edge_establishes [OF q]
  show "- parallel_eps < edge_side (x_min w, y_max w) (x_min w, y_min w) q" .
qed

text \<open>
  Claim C10, as amended. For every clip window and every polygon, every vertex \<open>(x, y)\<close>
  returned by \<open>clip_polygon\<close> satisfies the four half-plane tests up to the threshold
  \<open>\<epsilon> = 1e-10\<close> of the near-parallel fall-back:
  \<open>(x_max - x_min) * (y - y_min) > - \<epsilon>\<close>, \<open>(y_max - y_min) * (x_max - x) > - \<epsilon>\<close>,
  \<open>(x_max - x_min) * (y_max - y) > - \<epsilon>\<close> and \<open>(y_max - y_min) * (x - x_min) > - \<epsilon>\<close>.
  Hence, for a window with \<open>x_min < x_max\<close> and \<open>y_min < y_max\<close>, the vertex lies in the
  window widened by \<open>\<epsilon> / (y_max - y_min)\<close> to the left and right and by
  \<open>\<epsilon> / (x_max - x_min)\<close> below and above.
\<close>

theorem clip_polygon_within_window:
  "\<forall>(x, y) \<in> set (clip_polygon w polygon).
     - parallel_eps < (x_max w - x_min w) * (y - y_min w) \<and>
     - parallel_eps < (y_max w - y_min w) * (x_max w - x) \<and>
     - parallel_eps < (x_max w - x_min w) * (y_max w - y) \<and>
     - parallel_eps < (y_max w - y_min w) * (x - x_min w) \<and>
     (x_min w < x_max w \<and> y_min w < y_max w \<longrightarrow>
        x_min w - parallel_eps / (y_max w - y_min w) < x \<and>
        x < x_max w + parallel_eps / (y_max w - y_min w) \<and>
        y_min w - parallel_eps / (x_max w - x_min w) < y \<and>
        y < y_max w + parallel_eps / (x_max w - x_min w))"
proof (intro ballI, unfold case_prod_unfold)
  fix q assume q: "q \<in> set (clip_polygon w polygon)"
  let ?x = "fst q" and ?y = "snd q"
  have 1: "- parallel_eps < (x_max w - x_min w) * (?y - y_min w)"
    using clip_polygon_sides(1) [OF q] by (simp add: edge_side_def)
  have 2: "- parallel_eps < (y_max w - y_min w) * (x_max w - ?x)"
    using clip_polygon_sides(2) [OF q] by (simp add: edge_side_def algebra_simps)
  have 3: "- parallel_eps < (x_max w - x_min w) * (y_max w - ?y)"
    using clip_polygon_sides(3) [OF q] by (simp add: edge_side_def algebra_simps)
  have 4: "- parallel_eps < (y_max w - y_min w) * (?x - x_min w)"
    using clip_polygon_sides(4) [OF q] by (simp add: edge_side_def algebra_simps)
  have lower: "a - e / d < b" if "0 < d" "- e < d * (b - a)" for a b d e :: real
  proof -
    from that have "- e / d < b - a" by (simp add: field_simps)
    then show ?thesis by simp
  qed
  have upper: "b < a + e / d" if "0 < d" "- e < d * (a - b)" for a b d e :: real
  proof -
    from that have "- e / d < a - b" by (simp add: field_simps)
    then show ?thesis by simp
  qed
  have "x_min w - parallel_eps / (y_max w - y_min w) < ?x \<and>
        ?x < x_max w + parallel_eps / (y_max w - y_min w) \<and>
        y_min w - parallel_eps / (x_max w - x_min w) < ?y \<and>
        ?y < y_max w + parallel_eps / (x_max w - x_min w)"
    if "x_min w < x_max w" "y_min w < y_max w"
  proof -
    from that have W: "0 < x_max w - x_min w" and H: "0 < y_max w - y_min w" by simp_all
    from lower [OF H 4] upper [OF H 2] lower [OF W 1] upper [OF W 3]
    show ?thesis by blast
  qed
  with 1 2 3 4
  show "- parallel_eps < (x_max w - x_min w) * (?y - y_min w) \<and>
     - parallel_eps < (y_max w - y_min w) * (x_max w - ?x) \<and>
     - parallel_eps < (x_max w - x_min w) * (y_max w - ?y) \<and>
     - parallel_eps < (y_max w - y_min w) * (?x - x_min w) \<and>
     (x_min w < x_max w \<and> y_min w < y_max w \<longrightarrow>
        x_min w - parallel_eps / (y_max w - y_min w) < ?x \<and>
        ?x < x_max w + parallel_eps / (y_max w - y_min w) \<and>
        y_min w - parallel_eps / (x_max w - x_min w) < ?y \<and>
        ?y < y_max w + parallel_eps / (x_max w - x_min w))"
    by blast
qed

lemma clip_polygon_quadrant_example:
  "clip_polygon \<lparr>x_min = 0, y_min = 0, x_max = 10, y_max = 10\<rparr>
     [(- 5, - 5), (5, - 5), (5, 5), (- 5, 5)] = [(0, 0), (5, 0), (5, 5), (0, 5)]"
  by (simp add: clip_polygon_def clip_edge_def clip_edge_at_def inside_def intersection_def
      parallel_eps_def Let_def upt_rec)

theorem clip_polygon_within_window_witness:
  "(5, 5) \<in> set (clip_polygon \<lparr>x_min = 0, y_min = 0, x_max = 10, y_max = 10\<rparr>
      [(- 5, - 5), (5, - 5), (5, 5), (- 5, 5)]) \<and>
   (0 :: real) < 10 \<and>
   0 - parallel_eps / (10 - 0) < 5 \<and> 5 < 10 + parallel_eps / (10 - 0)"
proof -
  let ?w = "\<lparr>x_min = 0, y_min = 0, x_max = 10, y_max = 10\<rparr> :: real clip_window"
  let ?P = "[(- 5, - 5), (5, - 5), (5, 5), (- 5, 5)] :: point list"
  have m: "(5, 5) \<in> set (clip_polygon ?w ?P)"
    by (simp only: clip_polygon_quadrant_example) simp
  from clip_polygon_within_window [of ?w ?P] m
  have "case (5, 5) of (x, y) \<Rightarrow>
     - parallel_eps < (x_max ?w - x_min ?w) * (y - y_min ?w) \<and>
     - parallel_eps < (y_max ?w - y_min ?w) * (x_max ?w - x) \<and>
     - parallel_eps < (x_max ?w - x_min ?w) * (y_max ?w - y) \<and>
     - parallel_eps < (y_max ?w - y_min ?w) * (x - x_min ?w) \<and>
     (x_min ?w < x_max ?w \<and> y_min ?w < y_max ?w \<longrightarrow>
        x_min ?w - parallel_eps / (y_max ?w - y_min ?w) < x \<and>
        x < x_max ?w + parallel_eps / (y_max ?w - y_min ?w) \<and>
        y_min ?w - parallel_eps / (x_max ?w - x_min ?w) < y \<and>
        y < y_max ?w + parallel_eps / (x_max ?w - x_min ?w))"
    by blast
  with m show ?thesis by simp
qed

text \<open>
  The claim as stated fails. In the window \<open>(0, 0, 1, 1)\<close> the edge from
  \<open>(1/2, -1e-11)\<close> to \<open>(1/2, 0)\<close> enters the bottom half-plane with \<open>\<bar>denom\<bar> < 1e-10\<close>, so
  \<open>intersection\<close> returns the outside vertex itself, and it stays in the output.
\<close>

theorem clip_polygon_outside_window_counterexample:
  "(1 / 2, - (1 / 10 ^ 11)) \<in> set (clip_polygon \<lparr>x_min = 0, y_min = 0, x_max = 1, y_max = 1\<rparr>
      [(1 / 2, - (1 / 10 ^ 11)), (1 / 2, 0), (3 / 4, 1 / 2)]) \<and>
   \<not> (0 :: real) \<le> - (1 / 10 ^ 11)"
  by (simp add: clip_polygon_def clip_edge_def clip_edge_at_def inside_def intersection_def
      parallel_eps_def Let_def upt_rec)

text \<open>
  A window of width zero satisfies \<open>x_min \<le> x_max\<close>, and its bottom and top tests hold for
  every point: nothing bounds \<open>y\<close>.
\<close>

lemma clip_polygon_degenerate_window_example:
  "clip_polygon \<lparr>x_min = 0, y_min = 0, x_max = 0, y_max = 10\<rparr> [(0, - 5), (0, 20), (0, 3)] =
     [(0, 20), (0, 3), (0, - 5)]"
  by (simp add: clip_polygon_def clip_edge_def clip_edge_at_def inside_def intersection_def
      parallel_eps_def Let_def upt_rec)

subsection \<open>Sutherland-Hodgman: the examples of the specification\<close>

lemma clip_edge_all_outside:
  assumes "\<forall>p \<in> set polygon. \<not> inside es ee p"
  shows "clip_edge polygon es ee = []"
proof -
  have "clip_edge_at polygon es ee i = []" if "i < length polygon" for i
  proof -
    from that have "(i + 1) mod length polygon < length polygon"
      by (intro mod_less_divisor) auto
    with that have "polygon ! i \<in> set polygon" "polygon ! ((i + 1) mod length polygon) \<in> set polygon"
      by (simp_all only: nth_mem)
    with assms show ?thesis by (simp add: clip_edge_at_def Let_def)
  qed
  then show ?thesis by (simp add: clip_edge_def)
qed

lemma clip_polygon_left_of_window:
  assumes "\<forall>p \<in> set polygon. fst p < x_min w" "y_min w < y_max w"
  shows "clip_polygon w polygon = []"
proof -
  let ?a = "(x_min w, y_min w)" and ?b = "(x_min w, y_min w + 1)"
  let ?P1 = "clip_edge polygon (x_min w, y_min w) (x_max w, y_min w)"
  let ?P2 = "clip_edge ?P1 (x_max w, y_min w) (x_max w, y_max w)"
  let ?P3 = "clip_edge ?P2 (x_max w, y_max w) (x_min w, y_max w)"
  have side: "0 < edge_side ?a ?b p \<longleftrightarrow> fst p < x_min w" for p
    by (simp add: edge_side_def)
  from assms(1) have "\<forall>p \<in> set polygon. 0 < edge_side ?a ?b p" by (simp only: side)
  then have "\<forall>p \<in> set ?P1. 0 < edge_side ?a ?b p" using clip_edge_preserves by blast
  then have "\<forall>p \<in> set ?P2. 0 < edge_side ?a ?b p" using clip_edge_preserves by blast
  then have "\<forall>p \<in> set ?P3. 0 < edge_side ?a ?b p" using clip_edge_preserves by blast
  then have left: "\<forall>p \<in> set ?P3. fst p < x_min w" by (simp only: side)
  have "\<not> inside (x_min w, y_max w) (x_min w, y_min w) p" if "p \<in> set ?P3" for p
  proof -
    from left that have "fst p < x_min w" by blast
    with assms(2) have "(y_max w - y_min w) * (fst p - x_min w) < 0"
      by (intro mult_pos_neg) simp_all
    then show ?thesis by (simp add: inside_def algebra_simps)
  qed
  then have "clip_edge ?P3 (x_min w, y_max w) (x_min w, y_min w) = []"
    by (intro clip_edge_all_outside) blast
  then show ?thesis by (simp only: clip_polygon_passes)
qed

text \<open>
  On Python's numbers the example of the specification gives the quadrant rectangle: the
  three intersection points are floats, the vertex \<open>(5, 5)\<close> is the int pair it was.
\<close>

lemma clip_polygon_py_quadrant_example:
  "clip_polygon_py \<lparr>x_min = PyInt 0, y_min = PyInt 0, x_max = PyInt 10, y_max = PyInt 10\<rparr>
     [(PyInt (- 5), PyInt (- 5)), (PyInt 5, PyInt (- 5)), (PyInt 5, PyInt 5),
      (PyInt (- 5), PyInt 5)] =
   Inr [(PyFloat (Finite 0), PyFloat (Finite 0)), (PyFloat (Finite 5), PyFloat (Finite 0)),
        (PyInt 5, PyInt 5), (PyFloat (Finite 0), PyFloat (Finite 5))]"
  by (simp add: clip_polygon_py_eval py_eval round_double_eval)

text \<open>
  Claim C6, as amended. With the window \<open>(0, 0, 10, 10)\<close>, clipping the polygon \<open>(-5,-5)\<close>,
  \<open>(5,-5)\<close>, \<open>(5,5)\<close>, \<open>(-5,5)\<close> returns the quadrant rectangle \<open>(0,0)\<close>, \<open>(5,0)\<close>, \<open>(5,5)\<close>,
  \<open>(0,5)\<close>, on Python's numbers as in exact arithmetic; and in exact real arithmetic every
  polygon all of whose vertices have \<open>x < 0\<close> is clipped to the empty list.
\<close>

theorem clip_polygon_examples:
  "clip_polygon_py \<lparr>x_min = PyInt 0, y_min = PyInt 0, x_max = PyInt 10, y_max = PyInt 10\<rparr>
     [(PyInt (- 5), PyInt (- 5)), (PyInt 5, PyInt (- 5)), (PyInt 5, PyInt 5),
      (PyInt (- 5), PyInt 5)] =
   Inr [(PyFloat (Finite 0), PyFloat (Finite 0)), (PyFloat (Finite 5), PyFloat (Finite 0)),
        (PyInt 5, PyInt 5), (PyFloat (Finite 0), PyFloat (Finite 5))] \<and>
   clip_polygon \<lparr>x_min = 0, y_min = 0, x_max = 10, y_max = 10\<rparr>
     [(- 5, - 5), (5, - 5), (5, 5), (- 5, 5)] = [(0, 0), (5, 0), (5, 5), (0, 5)] \<and>
   ((\<forall>p \<in> set polygon. fst p < 0) \<longrightarrow>
      clip_polygon \<lparr>x_min = 0, y_min = 0, x_max = 10, y_max = 10\<rparr> polygon = [])"
  using clip_polygon_left_of_window [of polygon "\<lparr>x_min = 0, y_min = 0, x_max = 10, y_max = 10\<rparr>"]
  by (simp add: clip_polygon_quadrant_example clip_polygon_py_quadrant_example)

theorem clip_polygon_examples_witness:
  "(- 5 :: real) < 0 \<and> (- 1 :: real) < 0 \<and> (- 2 :: real) < 0 \<and>
   clip_polygon \<lparr>x_min = 0, y_min = 0, x_max = 10, y_max = 10\<rparr>
     [(- 5, - 5), (- 1, - 5), (- 2, 5)] = []"
  using clip_polygon_examples [of "[(- 5, - 5), (- 1, - 5), (- 2, 5)]"] by simp

text \<open>
  The claim as stated, without exact arithmetic, fails. All vertices of the triangle
  \<open>(- (2 ^ 60), -5)\<close>, \<open>(-1, 0)\<close>, \<open>(-1, 5)\<close> have \<open>x < 0\<close>. Its first edge enters the
  bottom half-plane at \<open>t = 1.0\<close>, and \<open>x = x1 + t * (x2 - x1)\<close> converts
  \<open>x2 - x1 = 2 ^ 60 - 1\<close> to the double \<open>2 ^ 60\<close>: the intersection is \<open>(0.0, 0.0)\<close>, which
  the left pass keeps.
\<close>

theorem clip_polygon_left_of_window_counterexample:
  "py_lt (PyInt (- (2 ^ 60))) (PyInt 0) \<and> py_lt (PyInt (- 1)) (PyInt 0) \<and>
   clip_polygon_py \<lparr>x_min = PyInt 0, y_min = PyInt 0, x_max = PyInt 10, y_max = PyInt 10\<rparr>
     [(PyInt (- (2 ^ 60)), PyInt (- 5)), (PyInt (- 1), PyInt 0), (PyInt (- 1), PyInt 5)] =
   Inr [(PyFloat (Finite 0), PyFloat (Finite 0)), (PyFloat (Finite 0), PyFloat (Finite 0)),
        (PyFloat (Finite 0), PyFloat (Finite 0))]"
proof -
  have "clip_polygon_py \<lparr>x_min = PyInt 0, y_min = PyInt 0, x_max = PyInt 10, y_max = PyInt 10\<rparr>
     [(PyInt (- (2 ^ 60)), PyInt (- 5)), (PyInt (- 1), PyInt 0), (PyInt (- 1), PyInt 5)] =
   Inr [(PyFloat (Finite 0), PyFloat (Finite 0)), (PyFloat (Finite 0), PyFloat (Finite 0)),
        (PyFloat (Finite 0), PyFloat (Finite 0))]"
    by (simp add: clip_polygon_py_eval py_eval round_double_eval)
  then show ?thesis by (simp add: py_lt_def)
qed

subsection \<open>Cohen-Sutherland: a zero divisor\<close>

text \<open>
  The int \<open>2 ^ 53 + 1\<close> is not a double: converted, it is \<open>2 ^ 53\<close>. Compared, it is itself.
\<close>

lemma to_float_rounds:
  "to_float (PyInt (2 ^ 53 + 1)) = Inr (Finite (2 ^ 53))"
  "py_lt (PyFloat (Finite (2 ^ 53))) (PyInt (2 ^ 53 + 1))"
  by (simp_all add: py_eval round_double_eval)

text \<open>
  A horizontal segment on the bottom boundary \<open>y = 2 ^ 53 + 1\<close> of a window, with its left
  end outside. The first iteration clips at the left boundary: \<open>y = y1 + 0.0\<close> is the float
  \<open>2 ^ 53\<close>, which lies below the window. The second iteration clips at the bottom boundary
  and divides by \<open>y2 - y1\<close>, where \<open>y2\<close> is converted to \<open>2 ^ 53\<close> too.
\<close>

lemma clip_line_first_iteration:
  "find_intersection
     \<lparr>x_min = PyInt 0, y_min = PyInt (2 ^ 53 + 1), x_max = PyInt 10, y_max = PyInt (2 ^ 53 + 5)\<rparr>
     LEFT (PyInt (- 5)) (PyInt (2 ^ 53 + 1)) (PyInt 5) (PyInt (2 ^ 53 + 1)) None =
   Inr (PyInt 0, PyFloat (Finite (2 ^ 53)))"
  by (simp add: clip_line_eval py_eval round_double_eval)

lemma clip_line_second_divisor:
  "py_sub (PyInt (2 ^ 53 + 1)) (PyFloat (Finite (2 ^ 53))) = Inr (PyFloat (Finite 0))"
  by (simp add: py_eval round_double_eval)

lemma clip_line_horizontal_on_boundary:
  "clip_line 2
     \<lparr>x_min = PyInt 0, y_min = PyInt (2 ^ 53 + 1), x_max = PyInt 10, y_max = PyInt (2 ^ 53 + 5)\<rparr>
     (PyInt (- 5)) (PyInt (2 ^ 53 + 1)) (PyInt 5) (PyInt (2 ^ 53 + 1)) =
   Some (Inl ZeroDivisionError)"
  by (simp add: clip_line_eval numeral_2_eq_2 py_eval round_double_eval)

text \<open>
  Claim C3. There are a clip window with \<open>x_min \<le> x_max\<close> and \<open>y_min \<le> y_max\<close> and a segment
  that is exactly horizontal and lies on the tested (bottom) boundary for which the loop of
  \<open>clip_line\<close> reaches an interpolation whose divisor \<open>y2 - y1\<close> is zero: the run ends in
  \<^verbatim>\<open>ZeroDivisionError\<close>.
\<close>

theorem clip_line_zero_divisor_reachable:
  "\<exists>w x1 x2 y.
     py_ge (x_max w) (x_min w) \<and> py_ge (y_max w) (y_min w) \<and> y = y_min w \<and>
     clip_line 2 w x1 y x2 y = Some (Inl ZeroDivisionError)"
proof (intro exI conjI)
  let ?w = "\<lparr>x_min = PyInt 0, y_min = PyInt (2 ^ 53 + 1), x_max = PyInt 10,
             y_max = PyInt (2 ^ 53 + 5)\<rparr>"
  show "py_ge (x_max ?w) (x_min ?w)" by (simp add: py_ge_def)
  show "py_ge (y_max ?w) (y_min ?w)" by (simp add: py_ge_def)
  show "PyInt (2 ^ 53 + 1) = y_min ?w" by simp
  show "clip_line 2 ?w (PyInt (- 5)) (PyInt (2 ^ 53 + 1)) (PyInt 5) (PyInt (2 ^ 53 + 1)) =
        Some (Inl ZeroDivisionError)"
    by (rule clip_line_horizontal_on_boundary)
qed

text \<open>
  The same happens at the right boundary for the segment from \<open>(2 ^ 53, 20)\<close> to
  \<open>(2 ^ 53 + 1, 0)\<close> in the window \<open>(0, 0, 2 ^ 53, 10)\<close>. The example of the specification is clipped as it says.
\<close>

lemma clip_line_examples:
  "clip_line 2 \<lparr>x_min = PyInt 0, y_min = PyInt 0, x_max = PyInt (2 ^ 53), y_max = PyInt 10\<rparr>
     (PyInt (2 ^ 53)) (PyInt 20) (PyInt (2 ^ 53 + 1)) (PyInt 0) = Some (Inl ZeroDivisionError)"
  "clip_line 3 \<lparr>x_min = PyInt 0, y_min = PyInt 0, x_max = PyInt 10, y_max = PyInt 10\<rparr>
     (PyInt (- 5)) (PyInt 5) (PyInt 15) (PyInt 5) =
   Some (Inr (True, PyInt 0, PyFloat (Finite 5), PyInt 10, PyFloat (Finite 5)))"
  "clip_line 1 \<lparr>x_min = PyInt 0, y_min = PyInt 0, x_max = PyInt 10, y_max = PyInt 10\<rparr>
     (PyInt (- 5)) (PyInt (- 5)) (PyInt (- 1)) (PyInt (- 1)) =
   Some (Inr (False, PyInt 0, PyInt 0, PyInt 0, PyInt 0))"
  by (simp_all add: clip_line_eval numeral_2_eq_2 numeral_3_eq_3 py_eval round_double_eval)

subsection \<open>Bresenham: swapping the endpoints\<close>

text \<open>
  The swapped call walks the same offsets with the opposite signs. Where an extent is
  zero the sign does not flip, and the line never steps in that direction.
\<close>

lemma loop_x_flat:
  assumes "p < 0" "(a, b) \<in> set (bresenham_loop_x n dx 0 sx sy x y p)"
  shows "b = y"
  using assms by (induction n arbitrary: x p) (auto simp: Let_def)

lemma loop_x_minor_zero:
  assumes "0 \<le> dx" "(a, b) \<in> set (bresenham_loop_x (nat (dx + 1)) dx 0 1 1 0 0 (2 * 0 - dx))"
  shows "b = 0"
proof (cases "dx = 0")
  case True
  with assms(2) show ?thesis by (simp add: Let_def)
next
  case False
  with assms(1) have "2 * 0 - dx < 0" by simp
  from loop_x_flat [OF this assms(2)] show ?thesis .
qed

lemma loop_x_reflect:
  assumes "0 \<le> dy" "dy \<le> dx" "dx = \<bar>u2 - u1\<bar>" "dy = \<bar>v2 - v1\<bar>"
  shows "bresenham_loop_x (nat (dx + 1)) dx dy
           (if u1 > u2 then 1 else - 1) (if v1 > v2 then 1 else - 1) u2 v2 (2 * dy - dx) =
         map (\<lambda>(u, v). (u1 + u2 - u, v1 + v2 - v))
           (bresenham_loop_x (nat (dx + 1)) dx dy
              (if u2 > u1 then 1 else - 1) (if v2 > v1 then 1 else - 1) u1 v1 (2 * dy - dx))"
proof -
  let ?O = "bresenham_loop_x (nat (dx + 1)) dx dy 1 1 0 0 (2 * dy - dx)"
  have "(u2 + (if u1 > u2 then 1 else - 1) * a, v2 + (if v1 > v2 then 1 else - 1) * b) =
        (u1 + u2 - (u1 + (if u2 > u1 then 1 else - 1) * a),
         v1 + v2 - (v1 + (if v2 > v1 then 1 else - 1) * b))"
    if "(a, b) \<in> set ?O" for a b
  proof -
    have "a = 0" if "u1 = u2"
    proof -
      from that assms have "dx = 0" "dy = 0" by simp_all
      with \<open>(a, b) \<in> set ?O\<close> show ?thesis by (simp add: Let_def)
    qed
    moreover have "b = 0" if "v1 = v2"
    proof -
      from that assms have "dy = 0" by simp
      with loop_x_minor_zero [of dx a b] assms \<open>(a, b) \<in> set ?O\<close> show ?thesis by simp
    qed
    ultimately show ?thesis by auto
  qed
  then show ?thesis
    by (subst loop_x_offsets, subst (2) loop_x_offsets) (auto simp: comp_def)
qed

text \<open>The swapped line is the line reflected through the midpoint of the segment.\<close>

lemma bresenham_line_reflect:
  "bresenham_line x2 y2 x1 y1 =
     map (\<lambda>(x, y). (x1 + x2 - x, y1 + y2 - y)) (bresenham_line x1 y1 x2 y2)"
proof (cases "\<bar>x2 - x1\<bar> > \<bar>y2 - y1\<bar>")
  case True
  then have "\<bar>x1 - x2\<bar> > \<bar>y1 - y2\<bar>" by simp
  with True loop_x_reflect [of "\<bar>y2 - y1\<bar>" "\<bar>x2 - x1\<bar>" x2 x1 y2 y1]
  show ?thesis
    by (simp add: bresenham_line_def Let_def abs_minus_commute del: bresenham_loop_x.simps)
next
  case False
  then have "\<not> \<bar>x1 - x2\<bar> > \<bar>y1 - y2\<bar>" by simp
  with False loop_x_reflect [of "\<bar>x2 - x1\<bar>" "\<bar>y2 - y1\<bar>" y2 y1 x2 x1]
  show ?thesis
    by (simp add: bresenham_line_def Let_def abs_minus_commute loop_y_swap comp_def
        case_prod_unfold del: bresenham_loop_x.simps)
qed

text \<open>
  The claim as stated fails. From \<open>(0, 0)\<close> to \<open>(2, 1)\<close> the decision parameter is \<open>0\<close> at
  the first step, and the tie is broken towards the end point in both directions: the
  middle pixel is \<open>(1, 1)\<close> forwards and \<open>(1, 0)\<close> backwards.
\<close>

theorem bresenham_line_swap_counterexample:
  "set (bresenham_line 0 0 2 1) \<noteq> set (bresenham_line 2 1 0 0)"
proof -
  have "(1, 1) \<in> set (bresenham_line 0 0 2 1)"
    by (simp add: bresenham_line_def Let_def numeral_3_eq_3)
  moreover have "(1, 1) \<notin> set (bresenham_line 2 1 0 0)"
    by (simp add: bresenham_line_def Let_def numeral_3_eq_3)
  ultimately show ?thesis by blast
qed

text \<open>
  After \<open>a\<close> steps along the major axis the line has made \<open>minor_steps dx dy a\<close> steps along
  the minor axis: \<open>a * dy / dx\<close> rounded to the nearest integer, halves rounded up. There
  is no tie when no \<open>k * dy / dx\<close> with \<open>0 < k < dx\<close> lies exactly halfway between two
  integers.
\<close>

definition minor_steps :: "int \<Rightarrow> int \<Rightarrow> int \<Rightarrow> int" where
  "minor_steps dx dy a = (2 * a * dy + dx) div (2 * dx)"

definition no_tie :: "int \<Rightarrow> int \<Rightarrow> bool" where
  "no_tie dx dy \<longleftrightarrow> (\<forall>k \<in> set [1..dx - 1]. (2 * k * dy) mod (2 * dx) \<noteq> dx)"

lemma bres_inv_minor_steps:
  assumes "0 < dx" "bres_inv dx dy a b p"
  shows "b = minor_steps dx dy a"
proof -
  from assms(2) have "2 * a * dy + dx = 2 * dx * b + (p - 2 * dy + 2 * dx)"
    and "0 \<le> p - 2 * dy + 2 * dx" and "p - 2 * dy + 2 * dx < 2 * dx"
    by (auto simp: bres_inv_def algebra_simps)
  then show ?thesis unfolding minor_steps_def by (rule int_div_pos_eq [symmetric])
qed

lemma loop_x_closed_form:
  assumes "0 \<le> dy" "dy \<le> dx" "0 < dx" "bres_inv dx dy a b p"
  shows "bresenham_loop_x n dx dy 1 1 a b p =
         map (\<lambda>k. (a + int k, minor_steps dx dy (a + int k))) [0..<n]"
  using assms(4)
proof (induction n arbitrary: a b p)
  case 0
  show ?case by simp
next
  case (Suc n)
  have b: "b = minor_steps dx dy a" using assms(3) Suc.prems by (rule bres_inv_minor_steps)
  have shift: "map (\<lambda>k. (a + 1 + int k, minor_steps dx dy (a + 1 + int k))) [0..<n] =
        map (\<lambda>i. (a + int (Suc i), minor_steps dx dy (a + int (Suc i)))) [0..<n]"
  proof -
    have "a + 1 + int k = a + int (Suc k)" for k by simp
    then show ?thesis by (simp only:)
  qed
  show ?case
  proof (cases "p \<ge> 0")
    case True
    have "bres_inv dx dy (a + 1) (b + 1) (p - 2 * dx + 2 * dy)"
      using Suc.prems True assms(1,2) by (auto simp: bres_inv_def algebra_simps)
    from Suc.IH [OF this] True b show ?thesis
      by (simp add: Let_def map_upt_Suc shift del: upt_Suc)
  next
    case False
    have "bres_inv dx dy (a + 1) b (p + 2 * dy)"
      using Suc.prems False assms(1,2) by (auto simp: bres_inv_def algebra_simps)
    from Suc.IH [OF this] False b show ?thesis
      by (simp add: Let_def map_upt_Suc shift del: upt_Suc)
  qed
qed

lemma loop_x_offsets_closed_form:
  assumes "0 \<le> dy" "dy \<le> dx" "0 < dx"
  shows "set (bresenham_loop_x (nat (dx + 1)) dx dy 1 1 0 0 (2 * dy - dx)) =
         {(k, minor_steps dx dy k) | k. 0 \<le> k \<and> k \<le> dx}"
proof -
  have "bres_inv dx dy 0 0 (2 * dy - dx)"
    using assms by (simp add: bres_inv_def)
  from loop_x_closed_form [OF assms this, of "nat (dx + 1)"]
  have "set (bresenham_loop_x (nat (dx + 1)) dx dy 1 1 0 0 (2 * dy - dx)) =
        (\<lambda>k. (int k, minor_steps dx dy (int k))) ` {0..<nat (dx + 1)}"
    by simp
  also have "\<dots> = {(k, minor_steps dx dy k) | k. 0 \<le> k \<and> k \<le> dx}"
  proof (intro set_eqI iffI)
    fix q assume "q \<in> (\<lambda>k. (int k, minor_steps dx dy (int k))) ` {0..<nat (dx + 1)}"
    then obtain k where "k < nat (dx + 1)" "q = (int k, minor_steps dx dy (int k))" by auto
    then show "q \<in> {(k, minor_steps dx dy k) | k. 0 \<le> k \<and> k \<le> dx}"
      by (intro CollectI exI [of _ "int k"]) auto
  next
    fix q assume "q \<in> {(k, minor_steps dx dy k) | k. 0 \<le> k \<and> k \<le> dx}"
    then obtain k where k: "0 \<le> k" "k \<le> dx" "q = (k, minor_steps dx dy k)" by auto
    then have "nat k \<in> {0..<nat (dx + 1)}" by auto
    with k show "q \<in> (\<lambda>k. (int k, minor_steps dx dy (int k))) ` {0..<nat (dx + 1)}"
      by (intro image_eqI [of _ _ "nat k"]) auto
  qed
  finally show ?thesis .
qed

lemma minor_steps_mirror:
  assumes "0 < dx" "0 \<le> k" "k \<le> dx" "no_tie dx dy"
  shows "minor_steps dx dy (dx - k) = dy - minor_steps dx dy k"
proof -
  let ?q = "(2 * k * dy + dx) div (2 * dx)" and ?r = "(2 * k * dy + dx) mod (2 * dx)"
  have decomp: "2 * k * dy + dx = 2 * dx * ?q + ?r" by simp
  have r_lt: "?r < 2 * dx" and r_ge: "0 \<le> ?r" using assms(1) by simp_all
  have r_ne: "?r \<noteq> 0"
  proof
    assume z: "?r = 0"
    show False
    proof (cases "0 < k \<and> k < dx")
      case True
      have "(2 * k * dy) mod (2 * dx) = (2 * k * dy + dx - dx) mod (2 * dx)" by simp
      also have "\<dots> = (?r - dx) mod (2 * dx)" by (simp only: mod_diff_left_eq)
      also have "\<dots> = (- dx) mod (2 * dx)" using z by simp
      also have "\<dots> = dx" using assms(1)
        by (intro int_mod_pos_eq [of _ _ "- 1"]) auto
      finally show False using assms(4) True by (auto simp: no_tie_def)
    next
      case False
      with assms(2,3) consider "k = 0" | "k = dx" by linarith
      then show False
      proof cases
        case 1
        with z assms(1) show False by simp
      next
        case 2
        have "(2 * dx * dy + dx) mod (2 * dx) = dx"
          using assms(1) by (intro int_mod_pos_eq [of _ _ dy]) auto
        with z 2 assms(1) show False by simp
      qed
    qed
  qed
  have "2 * (dx - k) * dy + dx = 2 * dx * (dy - ?q) + (2 * dx - ?r)"
    using decomp by (simp add: algebra_simps)
  then have "(2 * (dx - k) * dy + dx) div (2 * dx) = dy - ?q"
    using r_lt r_ge r_ne by (intro int_div_pos_eq [of _ _ _ "2 * dx - ?r"]) auto
  then show ?thesis by (simp add: minor_steps_def)
qed

lemma reflect_offset:
  fixes u1 u2 s d k :: int
  assumes "u2 = u1 + s * d"
  shows "u1 + u2 - (u1 + s * k) = u1 + s * (d - k)"
  using assms by (simp add: algebra_simps)

lemma loop_x_symmetric:
  assumes "0 \<le> dy" "dy \<le> dx" "dx = \<bar>u2 - u1\<bar>" "dy = \<bar>v2 - v1\<bar>" "no_tie dx dy"
  shows "set (bresenham_loop_x (nat (dx + 1)) dx dy
           (if u1 > u2 then 1 else - 1) (if v1 > v2 then 1 else - 1) u2 v2 (2 * dy - dx)) =
         set (bresenham_loop_x (nat (dx + 1)) dx dy
           (if u2 > u1 then 1 else - 1) (if v2 > v1 then 1 else - 1) u1 v1 (2 * dy - dx))"
proof -
  let ?su = "if u2 > u1 then 1 else - 1 :: int" and ?sv = "if v2 > v1 then 1 else - 1 :: int"
  let ?F = "bresenham_loop_x (nat (dx + 1)) dx dy ?su ?sv u1 v1 (2 * dy - dx)"
  let ?refl = "\<lambda>(u, v). (u1 + u2 - u, v1 + v2 - v)"
  have bwd: "set (bresenham_loop_x (nat (dx + 1)) dx dy
           (if u1 > u2 then 1 else - 1) (if v1 > v2 then 1 else - 1) u2 v2 (2 * dy - dx)) =
         ?refl ` set ?F"
    by (simp only: loop_x_reflect [OF assms(1-4)] set_map)
  have sub: "?refl ` set ?F \<subseteq> set ?F"
  proof (cases "dx = 0")
    case True
    with assms have "u1 = u2" "v1 = v2" "dy = 0" by simp_all
    with True show ?thesis by (simp add: Let_def)
  next
    case False
    with assms(3) have pos: "0 < dx" by simp
    have F: "set ?F = (\<lambda>(a, b). (u1 + ?su * a, v1 + ?sv * b)) `
               {(k, minor_steps dx dy k) | k. 0 \<le> k \<and> k \<le> dx}"
      by (subst loop_x_offsets)
         (simp only: set_map loop_x_offsets_closed_form [OF assms(1,2) pos])
    have ends: "u2 = u1 + ?su * dx" "v2 = v1 + ?sv * dy"
      using assms(3,4) by auto
    show ?thesis
    proof
      fix q assume "q \<in> ?refl ` set ?F"
      then obtain k where k: "0 \<le> k" "k \<le> dx"
        and q: "q = ?refl (u1 + ?su * k, v1 + ?sv * minor_steps dx dy k)"
        unfolding F by auto
      have m: "minor_steps dx dy (dx - k) = dy - minor_steps dx dy k"
        using pos k assms(5) by (rule minor_steps_mirror)
      have "q = (u1 + ?su * (dx - k), v1 + ?sv * minor_steps dx dy (dx - k))"
        unfolding q m prod.case
        by (simp only: reflect_offset [OF ends(1)] reflect_offset [OF ends(2)])
      moreover have "0 \<le> dx - k" "dx - k \<le> dx" using k by simp_all
      ultimately show "q \<in> set ?F" unfolding F
        by (intro image_eqI [of _ _ "(dx - k, minor_steps dx dy (dx - k))"]) auto
    qed
  qed
  have invol: "?refl (?refl q) = q" for q by (cases q) simp
  have "set ?F \<subseteq> ?refl ` set ?F"
  proof
    fix q assume "q \<in> set ?F"
    then have "?refl q \<in> ?refl ` set ?F" by (rule imageI)
    with sub have "?refl q \<in> set ?F" by blast
    then have "?refl (?refl q) \<in> ?refl ` set ?F" by (rule imageI)
    then show "q \<in> ?refl ` set ?F" by (simp only: invol)
  qed
  with sub bwd show ?thesis by blast
qed

lemma bresenham_line_set_symmetric:
  assumes "no_tie (max \<bar>x2 - x1\<bar> \<bar>y2 - y1\<bar>) (min \<bar>x2 - x1\<bar> \<bar>y2 - y1\<bar>)"
  shows "set (bresenham_line x1 y1 x2 y2) = set (bresenham_line x2 y2 x1 y1)"
proof (cases "\<bar>x2 - x1\<bar> > \<bar>y2 - y1\<bar>")
  case True
  then have c: "\<bar>x1 - x2\<bar> > \<bar>y1 - y2\<bar>" by simp
  from True assms have "no_tie \<bar>x2 - x1\<bar> \<bar>y2 - y1\<bar>" by (simp add: max_def min_def)
  with True loop_x_symmetric [of "\<bar>y2 - y1\<bar>" "\<bar>x2 - x1\<bar>" x2 x1 y2 y1]
  show ?thesis
    using c by (simp add: bresenham_line_def Let_def abs_minus_commute del: bresenham_loop_x.simps)
next
  case False
  then have c: "\<not> \<bar>x1 - x2\<bar> > \<bar>y1 - y2\<bar>" by simp
  from False assms have "no_tie \<bar>y2 - y1\<bar> \<bar>x2 - x1\<bar>" by (simp add: max_def min_def)
  with False loop_x_symmetric [of "\<bar>x2 - x1\<bar>" "\<bar>y2 - y1\<bar>" y2 y1 x2 x1]
  show ?thesis
    using c by (simp add: bresenham_line_def Let_def abs_minus_commute loop_y_swap
        del: bresenham_loop_x.simps)
qed

text \<open>
  Claim C5, as amended. For all integer endpoints, \<open>bresenham_line x2 y2 x1 y1\<close> is, point
  by point, \<open>bresenham_line x1 y1 x2 y2\<close> reflected through the midpoint of the segment,
  \<open>(x, y) \<mapsto> (x1 + x2 - x, y1 + y2 - y)\<close>. The two calls return the same set of points
  whenever the line has no tie: with \<open>M = max \<bar>dx\<bar> \<bar>dy\<bar>\<close> and \<open>m = min \<bar>dx\<bar> \<bar>dy\<bar>\<close>, no \<open>k\<close> with
  \<open>0 < k < M\<close> has \<open>2 * k * m mod (2 * M) = M\<close>.
\<close>

theorem bresenham_line_swap:
  "bresenham_line x2 y2 x1 y1 =
     map (\<lambda>(x, y). (x1 + x2 - x, y1 + y2 - y)) (bresenham_line x1 y1 x2 y2) \<and>
   (no_tie (max \<bar>x2 - x1\<bar> \<bar>y2 - y1\<bar>) (min \<bar>x2 - x1\<bar> \<bar>y2 - y1\<bar>) \<longrightarrow>
      set (bresenham_line x1 y1 x2 y2) = set (bresenham_line x2 y2 x1 y1))"
  using bresenham_line_reflect [of x2 y2 x1 y1] bresenham_line_set_symmetric [of x2 x1 y2 y1]
  by blast

theorem bresenham_line_swap_witness:
  "no_tie (max \<bar>3 - 0\<bar> \<bar>1 - 0\<bar>) (min \<bar>3 - 0\<bar> \<bar>1 - 0\<bar>) \<and>
   set (bresenham_line 0 0 3 1) = set (bresenham_line 3 1 0 0)"
proof -
  have "no_tie (max \<bar>3 - 0\<bar> \<bar>1 - 0\<bar>) (min \<bar>3 - 0\<bar> \<bar>1 - 0\<bar>)"
    by (simp add: no_tie_def upto.simps)
  with bresenham_line_swap [of 3 1 0 0] show ?thesis by blast
qed

end
